theory Spec2Isabelle
  imports Complex_Main "HOL-Library.Word"
begin

section \<open>JavaScript values\<close>

text \<open>
  A JavaScript string is a sequence of UTF-16 code units. String literals of the source
  are ASCII and are written \<open>str ''...''\<close>.
\<close>

type_synonym jschar = "16 word"
type_synonym jsstring = "jschar list"

definition str :: "string \<Rightarrow> jsstring" where
  "str s = map of_char s"

text \<open>
  Numbers: the finite values are rationals (every finite double is one), plus the two
  infinities and NaN. Only comparison with 1, truthiness and \<open>Number.isInteger\<close> are used.
\<close>

datatype jsnum = NaN | PosInf | NegInf | Fin rat

datatype jsval =
    JUndefined
  | JNull
  | JBool bool
  | JNum jsnum
  | JStr jsstring
  | JArr "jsval list"
  | JObj "(jsstring \<times> jsval) list"
  | JFunction jsstring

text \<open>\<open>JFunction name\<close> is a function of the language's library, by its name.\<close>

text \<open>\<open>!!v\<close>: undefined, null, false, 0, NaN and the empty string are falsy.\<close>

fun truthy :: "jsval \<Rightarrow> bool" where
  "truthy JUndefined = False"
| "truthy JNull = False"
| "truthy (JBool b) = b"
| "truthy (JNum NaN) = False"
| "truthy (JNum (Fin q)) = (q \<noteq> 0)"
| "truthy (JNum PosInf) = True"
| "truthy (JNum NegInf) = True"
| "truthy (JStr s) = (s \<noteq> [])"
| "truthy (JArr xs) = True"
| "truthy (JObj kvs) = True"
| "truthy (JFunction name) = True"

text \<open>\<open>v == null\<close>: true of undefined and null only.\<close>

fun nullish :: "jsval \<Rightarrow> bool" where
  "nullish JUndefined = True"
| "nullish JNull = True"
| "nullish v = False"

text \<open>\<open>a ?? b\<close>\<close>

definition coalesce :: "jsval \<Rightarrow> jsval \<Rightarrow> jsval" where
  "coalesce a b = (if nullish a then b else a)"

text \<open>\<open>typeof v === 'string'\<close>\<close>

fun is_string :: "jsval \<Rightarrow> bool" where
  "is_string (JStr s) = True"
| "is_string v = False"

text \<open>Property read \<open>o[k]\<close> on a value that came from data (no accessors).\<close>

fun get_prop :: "jsval \<Rightarrow> jsstring \<Rightarrow> jsval" where
  "get_prop (JObj kvs) k = (case map_of kvs k of Some v \<Rightarrow> v | None \<Rightarrow> JUndefined)"
| "get_prop v k = JUndefined"

subsection \<open>The builtins and libraries the code calls\<close>

text \<open>
  The library functions and the language conversions the source calls are parameters of
  the model: \<open>StringToNumber\<close> is \<open>Number(s)\<close> on a string, \<open>ObjectToNumber\<close> the numeric
  conversion of an array or object, \<open>toLowerCase\<close> the string method, \<open>yaml_load\<close> is
  \<open>yaml.load\<close> (\<open>None\<close> when it throws), \<open>select\<close> is unist-util-select's \<open>select\<close>,
  \<open>normalizeLabel\<close> is myst-common's, and \<open>nanoid\<close> is the identifier the call
  \<open>nanoid()\<close> returns.
\<close>

record js_env =
  StringToNumber :: "jsstring \<Rightarrow> jsnum"
  ObjectToNumber :: "jsval \<Rightarrow> jsnum"
  toLowerCase :: "jsstring \<Rightarrow> jsstring"
  yaml_load :: "jsstring \<Rightarrow> jsval option"
  select :: "jsstring \<Rightarrow> jsval \<Rightarrow> jsval"
  normalizeLabel :: "jsval \<Rightarrow> jsval"
  nanoid :: jsstring

text \<open>The abstract operation ToNumber.\<close>

fun to_number :: "'a js_env_scheme \<Rightarrow> jsval \<Rightarrow> jsnum" where
  "to_number env JUndefined = NaN"
| "to_number env JNull = Fin 0"
| "to_number env (JBool b) = Fin (if b then 1 else 0)"
| "to_number env (JNum n) = n"
| "to_number env (JStr s) = StringToNumber env s"
| "to_number env v = ObjectToNumber env v"

text \<open>\<open>n > 1\<close> and \<open>n <= 1\<close> on numbers: both are false of NaN.\<close>

fun num_gt1 :: "jsnum \<Rightarrow> bool" where
  "num_gt1 NaN = False"
| "num_gt1 PosInf = True"
| "num_gt1 NegInf = False"
| "num_gt1 (Fin q) = (q > 1)"

fun num_le1 :: "jsnum \<Rightarrow> bool" where
  "num_le1 NaN = False"
| "num_le1 PosInf = False"
| "num_le1 NegInf = True"
| "num_le1 (Fin q) = (q \<le> 1)"

text \<open>\<open>v > 1\<close> and \<open>v <= 1\<close> on any value (the other operand is a number, so both sides
  are converted by ToNumber).\<close>

definition js_gt1 :: "'a js_env_scheme \<Rightarrow> jsval \<Rightarrow> bool" where
  "js_gt1 env v = num_gt1 (to_number env v)"

definition js_le1 :: "'a js_env_scheme \<Rightarrow> jsval \<Rightarrow> bool" where
  "js_le1 env v = num_le1 (to_number env v)"

text \<open>\<open>Number.isInteger\<close>\<close>

fun is_integer :: "jsnum \<Rightarrow> bool" where
  "is_integer (Fin q) = (of_int \<lfloor>q\<rfloor> = q)"
| "is_integer n = False"

subsection \<open>String methods\<close>

text \<open>White space and line terminators: what \<open>\s\<close> matches and \<open>trim\<close> strips.\<close>

definition is_space :: "jschar \<Rightarrow> bool" where
  "is_space c \<longleftrightarrow>
     c = 0x9 \<or> c = 0xA \<or> c = 0xB \<or> c = 0xC \<or> c = 0xD \<or> c = 0x20 \<or> c = 0xA0 \<or>
     c = 0x1680 \<or> (0x2000 \<le> c \<and> c \<le> 0x200A) \<or> c = 0x2028 \<or> c = 0x2029 \<or>
     c = 0x202F \<or> c = 0x205F \<or> c = 0x3000 \<or> c = 0xFEFF"

definition trim :: "jsstring \<Rightarrow> jsstring" where
  "trim s = rev (dropWhile is_space (rev (dropWhile is_space s)))"

text \<open>\<open>s.split(sep)\<close> for a separator that matches exactly one code unit: the pieces
  between separators, empty pieces kept; the empty string gives one empty piece.\<close>

fun split :: "(jschar \<Rightarrow> bool) \<Rightarrow> jsstring \<Rightarrow> jsstring list" where
  "split p [] = [[]]"
| "split p (c # cs) =
     (if p c then [] # split p cs
      else (case split p cs of w # ws \<Rightarrow> (c # w) # ws | [] \<Rightarrow> [[c]]))"

definition startsWith :: "jsstring \<Rightarrow> jsstring \<Rightarrow> bool" where
  "startsWith s p = (take (length p) s = p)"

definition endsWith :: "jsstring \<Rightarrow> jsstring \<Rightarrow> bool" where
  "endsWith s p = (length p \<le> length s \<and> drop (length s - length p) s = p)"

section \<open>Diagnostics on the file\<close>

datatype severity = Warning | Error

datatype rule_id = directiveOptionsCorrect

record message =
  m_severity :: severity
  m_reason :: jsstring
  m_node :: jsval
  m_source :: jsstring
  m_ruleId :: rule_id

text \<open>The file is its list of messages, oldest first.\<close>

type_synonym vfile = "message list"

definition fileWarn :: "vfile \<Rightarrow> jsstring \<Rightarrow> jsval \<Rightarrow> jsstring \<Rightarrow> rule_id \<Rightarrow> vfile" where
  "fileWarn vf reason nd source rid =
     vf @ [\<lparr>m_severity = Warning, m_reason = reason, m_node = nd, m_source = source, m_ruleId = rid\<rparr>]"

definition fileError :: "vfile \<Rightarrow> jsstring \<Rightarrow> jsval \<Rightarrow> jsstring \<Rightarrow> rule_id \<Rightarrow> vfile" where
  "fileError vf reason nd source rid =
     vf @ [\<lparr>m_severity = Error, m_reason = reason, m_node = nd, m_source = source, m_ruleId = rid\<rparr>]"

section \<open>Directive data\<close>

text \<open>Option names are the ASCII names of the directive's option table.\<close>

record directive_data =
  arg :: jsval
  options :: "(string \<rightharpoonup> jsval) option"
  body :: jsval
  node :: jsval

text \<open>\<open>data.options?.[k]\<close>\<close>

definition opt :: "directive_data \<Rightarrow> string \<Rightarrow> jsval" where
  "opt data k =
     (case options data of
        None \<Rightarrow> JUndefined
      | Some m \<Rightarrow> (case m k of None \<Rightarrow> JUndefined | Some v \<Rightarrow> v))"

text \<open>The selector \<open>mystDirectiveOption[name="..."]\<close>.\<close>

definition option_selector :: "string \<Rightarrow> jsstring" where
  "option_selector name =
     str (''mystDirectiveOption[name='' @ [CHR 0x22] @ name @ [CHR 0x22] @ '']'')"

datatype js_error = TypeError

section \<open>Code-block options\<close>

definition parseEmphasizeLines :: "'a js_env_scheme \<Rightarrow> jsval \<Rightarrow> js_error + jsval" where
  "parseEmphasizeLines env emphasizeLinesString =
     (if \<not> truthy emphasizeLinesString then Inr JUndefined
      else (case emphasizeLinesString of
              JStr s \<Rightarrow>
                Inr (JArr (map JNum (filter is_integer
                  (map (\<lambda>val. StringToNumber env (trim val)) (split (\<lambda>c. c = 0x2C) s)))))
            | _ \<Rightarrow> Inl TypeError))"

record code_opts =
  emphasizeLines :: jsval
  showLineNumbers :: jsval
  startingLineNumber :: jsval
  filename :: jsval

definition both_message :: jsstring where
  "both_message =
     str (''Cannot use both '' @ [CHR 0x22] @ ''lineno-start'' @ [CHR 0x22] @ '' and '' @
          [CHR 0x22] @ ''number-lines'' @ [CHR 0x22])"

text \<open>
  The body of \<open>getCodeBlockOptions\<close>, one definition for each of its local variables.
  The warning of its first statement:
\<close>

definition warn_both :: "'a js_env_scheme \<Rightarrow> directive_data \<Rightarrow> vfile \<Rightarrow> vfile" where
  "warn_both env data vf =
     (if \<not> nullish (opt data ''lineno-start'') \<and> \<not> nullish (opt data ''number-lines'')
      then fileWarn vf both_message
             (coalesce (select env (option_selector ''number-lines'') (node data)) (node data))
             (str ''code-block:options'') directiveOptionsCorrect
      else vf)"

text \<open>\<open>showLineNumbers\<close>: \<open>true\<close> or \<open>undefined\<close>.\<close>

definition showLineNumbers_of :: "directive_data \<Rightarrow> jsval" where
  "showLineNumbers_of data =
     (if truthy (opt data ''linenos'') \<or> truthy (opt data ''lineno-start'') \<or>
         truthy (opt data ''lineno-match'') \<or> truthy (opt data ''number-lines'')
      then JBool True else JUndefined)"

text \<open>\<open>startingLineNumber\<close>: the initial value, then the \<open>if\<close> that overrides it.\<close>

definition startingLineNumber_of :: "'a js_env_scheme \<Rightarrow> directive_data \<Rightarrow> jsval" where
  "startingLineNumber_of env data =
     (let numberLines = opt data ''number-lines'';
          start0 =
            (if \<not> nullish numberLines \<and> js_gt1 env numberLines then numberLines
             else opt data ''lineno-start'')
      in if truthy (opt data ''lineno-match'') then JStr (str ''match'')
         else if nullish start0 \<or> js_le1 env start0 then JUndefined
         else start0)"

text \<open>
  \<open>filename\<close>: a value that is neither nullish nor a string has no \<open>toLowerCase\<close>, and
  the call throws a TypeError.
\<close>

definition filename_of :: "'a js_env_scheme \<Rightarrow> jsval \<Rightarrow> jsval \<Rightarrow> js_error + jsval" where
  "filename_of env filename0 defaultFilename =
     (case filename0 of
        JStr s \<Rightarrow>
          if toLowerCase env s = str ''false'' then Inr JUndefined
          else if \<not> truthy filename0 \<and> truthy defaultFilename then Inr defaultFilename
          else Inr filename0
      | _ \<Rightarrow>
          if \<not> nullish filename0 then Inl TypeError
          else if \<not> truthy filename0 \<and> truthy defaultFilename then Inr defaultFilename
          else Inr filename0)"

text \<open>
  The result is the file after the call and either the error thrown or the options
  returned. (A truthy \<open>emphasize-lines\<close> that is not a string has no \<open>split\<close>: that
  call throws a TypeError too.)
\<close>

definition getCodeBlockOptions ::
  "'a js_env_scheme \<Rightarrow> directive_data \<Rightarrow> vfile \<Rightarrow> jsval \<Rightarrow> vfile \<times> (js_error + code_opts)" where
  "getCodeBlockOptions env data vf defaultFilename =
     (let vf1 = warn_both env data vf
      in case parseEmphasizeLines env (opt data ''emphasize-lines'') of
           Inl e \<Rightarrow> (vf1, Inl e)
         | Inr emph \<Rightarrow>
             (case filename_of env (opt data ''filename'') defaultFilename of
                Inl e \<Rightarrow> (vf1, Inl e)
              | Inr fname \<Rightarrow>
                  (vf1, Inr \<lparr>emphasizeLines = emph,
                              showLineNumbers = showLineNumbers_of data,
                              startingLineNumber = startingLineNumber_of env data,
                              filename = fname\<rparr>)))"

section \<open>Tags of a code cell\<close>

definition tags_load_message :: jsstring where
  "tags_load_message = str ''Could not load tags for code-cell directive''"

definition tags_list_message :: jsstring where
  "tags_list_message = str ''tags in code-cell directive must be a list of strings''"

definition tags_node :: "'a js_env_scheme \<Rightarrow> jsval \<Rightarrow> jsval" where
  "tags_node env nd = coalesce (select env (option_selector ''tags'') nd) nd"

text \<open>The string of a value known to be a string.\<close>

fun the_str :: "jsval \<Rightarrow> jsstring" where
  "the_str (JStr s) = s"
| "the_str v = []"

text \<open>\<open>xs.map((t) => t.trim()).filter((t) => !!t)\<close>\<close>

definition trim_nonempty :: "jsstring list \<Rightarrow> jsstring list" where
  "trim_nonempty xs = filter (\<lambda>t. t \<noteq> []) (map trim xs)"

text \<open>
  \<open>parseTags\<close> calls itself on what \<open>yaml.load\<close> returns, so it is a partial function:
  the outer \<open>None\<close> is a call that does not return. The result is the returned value
  (\<open>None\<close> for \<open>undefined\<close>) and the file after the call. Only \<open>yaml.load\<close> can throw
  inside the \<open>try\<close>.
\<close>

partial_function (option) parseTags ::
  "'a js_env_scheme \<Rightarrow> jsval \<Rightarrow> vfile \<Rightarrow> jsval \<Rightarrow> (jsstring list option \<times> vfile) option" where
  "parseTags env input vf nd =
     (if \<not> truthy input then Some (None, vf)
      else if is_string input \<and> startsWith (the_str input) (str ''['') \<and>
              endsWith (the_str input) (str '']'') then
        (case yaml_load env (the_str input) of
           Some v \<Rightarrow> parseTags env v vf nd
         | None \<Rightarrow>
             Some (None, fileError vf tags_load_message (tags_node env nd)
                           (str ''code-cell:tags'') directiveOptionsCorrect))
      else if is_string input then
        (let tags = trim_nonempty (split (\<lambda>c. c = 0x2C \<or> is_space c) (the_str input))
         in Some (if length tags > 0 then Some tags else None, vf))
      else (case input of
              JArr tags \<Rightarrow>
                if list_all is_string tags then
                  (if length tags > 0 then Some (Some (trim_nonempty (map the_str tags)), vf)
                   else Some (None, vf))
                else Some (None, fileWarn vf tags_list_message (tags_node env nd)
                                   (str ''code-cell:tags'') directiveOptionsCorrect)
            | _ \<Rightarrow> Some (None, vf)))"

section \<open>The nodes the directives build\<close>

record code_node =
  c_lang :: jsval
  c_class :: jsval
  c_emphasizeLines :: jsval
  c_showLineNumbers :: jsval
  c_startingLineNumber :: jsval
  c_filename :: jsval
  c_value :: jsval
  c_label :: jsval
  c_identifier :: jsval
  c_executable :: jsval

record block_data =
  bd_type :: jsstring
  bd_tags :: "jsstring list option"

text \<open>
  A field that the source does not set reads as \<open>undefined\<close>. \<open>Container kind label
  identifier children\<close>, \<open>Output id data\<close>, \<open>Block label identifier children data\<close>.
\<close>

datatype mdast =
    Code code_node
  | Paragraph jsval
  | Caption "mdast list"
  | Container jsval jsval jsval "mdast list"
  | Output jsstring "jsval list"
  | Block jsval jsval "mdast list" block_data

section \<open>The code directive\<close>

text \<open>\<open>const { label, identifier } = normalizeLabel(...) || {}\<close>\<close>

definition label_identifier :: "'a js_env_scheme \<Rightarrow> directive_data \<Rightarrow> jsval \<times> jsval" where
  "label_identifier env data =
     (let r = normalizeLabel env (opt data ''label'');
          ob = (if truthy r then r else JObj [])
      in (get_prop ob (str ''label''), get_prop ob (str ''identifier'')))"

definition codeDirective_run ::
  "'a js_env_scheme \<Rightarrow> directive_data \<Rightarrow> vfile \<Rightarrow> vfile \<times> (js_error + mdast list)" where
  "codeDirective_run env data vf =
     (let (lbl, ident) = label_identifier env data
      in case getCodeBlockOptions env data vf JUndefined of
           (vf1, Inl e) \<Rightarrow> (vf1, Inl e)
         | (vf1, Inr opts) \<Rightarrow>
             (let code = \<lparr>c_lang = arg data, c_class = opt data ''class'',
                          c_emphasizeLines = emphasizeLines opts,
                          c_showLineNumbers = showLineNumbers opts,
                          c_startingLineNumber = startingLineNumber opts,
                          c_filename = filename opts,
                          c_value = body data,
                          c_label = JUndefined, c_identifier = JUndefined,
                          c_executable = JUndefined\<rparr>
              in if \<not> truthy (opt data ''caption'') then
                   (vf1, Inr [Code (code\<lparr>c_label := lbl, c_identifier := ident\<rparr>)])
                 else
                   (let caption = Caption [Paragraph (opt data ''caption'')];
                        container = Container (JStr (str ''code'')) lbl ident [Code code, caption]
                    in (vf1, Inr [container]))))"

section \<open>The code-cell directive\<close>

definition codeCellDirective_run ::
  "'a js_env_scheme \<Rightarrow> directive_data \<Rightarrow> vfile \<Rightarrow> (vfile \<times> mdast list) option" where
  "codeCellDirective_run env data vf =
     (let (lbl, ident) = label_identifier env data;
          code = \<lparr>c_lang = arg data, c_class = JUndefined,
                  c_emphasizeLines = JUndefined, c_showLineNumbers = JUndefined,
                  c_startingLineNumber = JUndefined, c_filename = JUndefined,
                  c_value = coalesce (body data) (JStr []),
                  c_label = JUndefined, c_identifier = JUndefined,
                  c_executable = JBool True\<rparr>;
          output = Output (nanoid env) [];
          bdata = \<lparr>bd_type = str ''notebook-code'', bd_tags = None\<rparr>
      in case parseTags env (opt data ''tags'') vf (node data) of
           None \<Rightarrow> None
         | Some (tags, vf1) \<Rightarrow>
             Some (vf1, [Block lbl ident [Code code, output]
                           (case tags of Some ts \<Rightarrow> bdata\<lparr>bd_tags := Some ts\<rparr>
                                       | None \<Rightarrow> bdata)]))"

declare parseTags.simps [code]

section \<open>The declared option tables\<close>

datatype opt_type = TString | TNumber | TBoolean | TMyst

text \<open>A \<open>myst\<close> option holds the list of nodes parsed from its text.\<close>

fun has_type :: "opt_type \<Rightarrow> jsval \<Rightarrow> bool" where
  "has_type TString v = is_string v"
| "has_type TNumber v = (case v of JNum n \<Rightarrow> True | _ \<Rightarrow> False)"
| "has_type TBoolean v = (case v of JBool b \<Rightarrow> True | _ \<Rightarrow> False)"
| "has_type TMyst v = (case v of JArr xs \<Rightarrow> True | _ \<Rightarrow> False)"

definition CODE_DIRECTIVE_OPTIONS :: "(string \<times> opt_type) list" where
  "CODE_DIRECTIVE_OPTIONS =
     [(''caption'', TMyst), (''linenos'', TBoolean), (''lineno-start'', TNumber),
      (''number-lines'', TNumber), (''emphasize-lines'', TString), (''filename'', TString)]"

definition codeDirective_options :: "(string \<times> opt_type) list" where
  "codeDirective_options = [(''label'', TString), (''class'', TString)] @ CODE_DIRECTIVE_OPTIONS"

definition codeCellDirective_options :: "(string \<times> opt_type) list" where
  "codeCellDirective_options = [(''label'', TString), (''tags'', TString)]"

text \<open>Every option of the table that the data holds has the declared type.\<close>

definition conforms :: "(string \<times> opt_type) list \<Rightarrow> directive_data \<Rightarrow> bool" where
  "conforms tbl data =
     list_all (\<lambda>(k, t). opt data k = JUndefined \<or> has_type t (opt data k)) tbl"

section \<open>LaTeX character macros\<close>

text \<open>
  The parser state \<open>ITexParser\<close> is an interface: its three methods are parameters, functions
  on a state of any type. \<open>getArguments\<close> and \<open>texToText\<close> are the utilities.
\<close>

record 's tex_parser =
  openParagraph :: "'s \<Rightarrow> 's"
  text' :: "jsval \<Rightarrow> bool \<Rightarrow> 's \<Rightarrow> 's"
  warn :: "jsstring \<Rightarrow> jsval \<Rightarrow> jsstring \<Rightarrow> 's \<Rightarrow> 's"

record tex_utils =
  getArguments :: "jsval \<Rightarrow> jsstring \<Rightarrow> jsval"
  texToText :: "jsval \<Rightarrow> jsstring"

text \<open>
  The tables of the source are object literals, so they inherit the members of
  \<open>Object.prototype\<close>: eleven functions, and \<open>__proto__\<close>, which reads as the prototype
  itself.
\<close>

definition Object_prototype_functions :: "(jsstring \<times> jsval) list" where
  "Object_prototype_functions =
     [(str ''constructor'', JFunction (str ''Object'')),
      (str ''__defineGetter__'', JFunction (str ''__defineGetter__'')),
      (str ''__defineSetter__'', JFunction (str ''__defineSetter__'')),
      (str ''hasOwnProperty'', JFunction (str ''hasOwnProperty'')),
      (str ''__lookupGetter__'', JFunction (str ''__lookupGetter__'')),
      (str ''__lookupSetter__'', JFunction (str ''__lookupSetter__'')),
      (str ''isPrototypeOf'', JFunction (str ''isPrototypeOf'')),
      (str ''propertyIsEnumerable'', JFunction (str ''propertyIsEnumerable'')),
      (str ''toString'', JFunction (str ''toString'')),
      (str ''valueOf'', JFunction (str ''valueOf'')),
      (str ''toLocaleString'', JFunction (str ''toLocaleString''))]"

definition Object_prototype :: "(jsstring \<times> jsval) list" where
  "Object_prototype =
     Object_prototype_functions @ [(str ''__proto__'', JObj Object_prototype_functions)]"

text \<open>\<open>translate[value]\<close> on a table of the source: the entry the table lists for the
  key, or else the member of \<open>Object.prototype\<close> of that name, or else \<open>undefined\<close>.\<close>

definition lookup :: "(jsstring \<times> jsstring) list \<Rightarrow> jsstring \<Rightarrow> jsval" where
  "lookup translate k =
     (case map_of translate k of
        Some c \<Rightarrow> JStr c
      | None \<Rightarrow> (case map_of Object_prototype k of Some v \<Rightarrow> v | None \<Rightarrow> JUndefined))"

definition createText ::
  "('s, 'a) tex_parser_scheme \<Rightarrow> 'b tex_utils_scheme \<Rightarrow> 's \<Rightarrow> jsval \<Rightarrow>
   (jsstring \<times> jsstring) list \<Rightarrow> 's" where
  "createText p u state nd translate =
     (let s1 = openParagraph p state;
          value = texToText u (getArguments u nd (str ''group''));
          converted = lookup translate value
      in if truthy converted then text' p converted False s1
         else text' p converted False
                (warn p (str ''Unknown character '' @ value) nd (str ''tex-to-myst:characters'') s1))"

definition addText :: "('s, 'a) tex_parser_scheme \<Rightarrow> 's \<Rightarrow> jsval \<Rightarrow> 's" where
  "addText p state v =
     (if \<not> truthy v then state else text' p v False (openParagraph p state))"

text \<open>The two tables, in the order of the source; a character that is not ASCII is
  written as its code unit.\<close>

definition accents :: "(jsstring \<times> (jsstring \<times> jsstring) list) list" where
  "accents =
     [([0x60], [(str ''o'', [0xF2]), (str ''O'', [0xD2])]),
      ([0x27], [(str ''o'', [0xF3]), (str ''O'', [0xD3])]),
      ([0x5E], [([], [0x5E]), (str ''o'', [0xF4]), (str ''i'', [0xEE]), (str ''y'', [0x177]),
            (str ''O'', [0xD4]), (str ''I'', [0xCE]), (str ''Y'', [0x176])]),
      ([0x22], [(str ''o'', [0xF6]), (str ''u'', [0xFC]), (str ''i'', [0xEF]),
            (str ''O'', [0xD6]), (str ''U'', [0xDC]), (str ''I'', [0xCF])]),
      (str ''H'', [(str ''o'', [0x151]), (str ''O'', [0x150])]),
      ([0x7E], [([], [0x7E]), (str ''o'', [0xF5]), (str ''n'', [0xF1]), (str ''O'', [0xD5]),
            (str ''N'', [0xD1]), (str ''u'', [0x169]), (str ''U'', [0x168]),
            (str ''e'', [0x1EBD]), (str ''E'', [0x1EBC]), (str ''i'', [0x129]),
            (str ''I'', [0x128])]),
      (str ''c'', [(str ''c'', [0xE7]), (str ''C'', [0xC7])]),
      (str ''k'', [(str ''a'', [0x105]), (str ''A'', [0x104])]),
      (str ''l'', [([], [0x142])]),
      ([0x3D], [(str ''o'', [0x14D]), (str ''O'', [0x14C])]),
      ([0x2E], [(str ''o'', [0x22F]), (str ''O'', [0x22E])]),
      (str ''d'', [(str ''u'', [0x1EE5]), (str ''U'', [0x1EE4])]),
      (str ''r'', [(str ''a'', [0xE5]), (str ''A'', [0xC5])]),
      (str ''u'', [(str ''o'', [0x14F]), (str ''O'', [0x14E])]),
      (str ''v'', [(str ''s'', [0x161]), (str ''S'', [0x160])]),
      (str ''t'', [(str ''oo'', [0x6F, 0x361, 0x6F]), (str ''OO'', [0x4F, 0x361, 0x4F])]),
      (str ''o'', [([], [0xF8])]),
      (str ''i'', [([], [0x131])])]"

definition symbols :: "(jsstring \<times> jsstring) list" where
  "symbols =
     [([0x25], [0x25]),
      ([0x24], [0x24]),
      ([0x26], [0x26]),
      ([0x7B], [0x7B]),
      ([0x7D], [0x7D]),
      (str ''_'', str ''_''),
      (str ''P'', [0xB6]),
      (str ''dag'', [0x2020]),
      (str ''ddag'', [0x2021]),
      (str ''textbar'', [0x7C]),
      (str ''textgreater'', [0x3E]),
      (str ''textless'', [0x3C]),
      (str ''textendash'', [0x2013]),
      (str ''textemdash'', [0x2014]),
      (str ''texttrademark'', [0x2122]),
      (str ''textregistered'', [0xAE]),
      (str ''copyright'', [0xA9]),
      (str ''textexclamdown'', [0xA1]),
      (str ''textquestiondown'', [0xBF]),
      (str ''pounds'', [0xA3]),
      (str ''euro'', [0x20AC]),
      ([0x23], [0x23]),
      (str ''S'', [0xA7]),
      (str ''textbackslash'', [0x5C]),
      (str ''textcelsius'', [0x2103]),
      (str ''degreeCelsius'', [0x2103]),
      (str ''celsius'', [0x2103]),
      (str ''aa'', [0xE5]),
      (str ''AA'', [0xC5]),
      (str ''dots'', [0x2026]),
      (str ''ldots'', [0x2026]),
      (str ''textellipsis'', [0x2026]),
      (str ''textdegree'', [0xBA]),
      (str ''textasciitilde'', [0x7E]),
      (str ''textvisiblespace'', str '' '')]"

text \<open>\<open>Object.fromEntries\<close>: of two entries with one key the later one stays; in
  \<open>{...a, ...b}\<close> the keys of \<open>b\<close> win.\<close>

definition fromEntries :: "('k \<times> 'v) list \<Rightarrow> ('k \<rightharpoonup> 'v)" where
  "fromEntries es = map_of (rev es)"

definition CHARACTER_HANDLERS ::
  "('s, 'a) tex_parser_scheme \<Rightarrow> 'b tex_utils_scheme \<Rightarrow> (jsstring \<rightharpoonup> (jsval \<Rightarrow> 's \<Rightarrow> 's))" where
  "CHARACTER_HANDLERS p u =
     fromEntries (map (\<lambda>(macro, translate).
                     (str ''macro_'' @ macro, \<lambda>nd state. createText p u state nd translate)) accents)
     ++ fromEntries (map (\<lambda>(macro, txt).
                     (str ''macro_'' @ macro, \<lambda>nd state. addText p state (JStr txt))) symbols)"

section \<open>Building a site\<close>

text \<open>
  \<open>buildProject\<close> and \<open>buildSite\<close> are asynchronous functions. Each is cut at its \<open>await\<close>s
  into the segments that run without interruption, and a run is driven by the order in
  which the pending promises of the cache (\<open>getCitationRenderer\<close>, \<open>processFile\<close>)
  settle: a schedule is any list of settlements, and a settlement of a promise that is
  not pending changes nothing. \<open>Promise.all\<close> is fulfilled when all its promises are,
  with the results in the order of the list, and rejected as soon as one is rejected.
  The calls into the file system, the store and the log are events of the trace.
\<close>

record build_opts =
  force :: bool
  clean :: bool

record document_cache =
  dc_opts :: build_opts

record site_project =
  sp_path :: jsstring
  sp_slug :: jsstring

text \<open>A page of a project with a file and a slug, or an entry without a slug.\<close>

datatype project_page = LocalProjectPage jsstring jsstring | OtherEntry

text \<open>\<open>'slug' in page\<close>\<close>

fun has_slug :: "project_page \<Rightarrow> bool" where
  "has_slug (LocalProjectPage file slug) = True"
| "has_slug OtherEntry = False"

record project_config =
  pc_file :: jsstring
  pc_index :: jsstring
  pc_pages :: "project_page list"

record site_config =
  projects :: "site_project list"

text \<open>What the store holds: the site configuration selected from it, if any, and the
  project configuration found on disk at a path.\<close>

record build_env =
  selectLocalSiteConfig :: "site_config option"
  loadProjectConfigFromDisk :: "jsstring \<Rightarrow> project_config"

subsection \<open>buildProject\<close>

datatype log_line = Built nat nat | FromCache nat

datatype project_event =
    LoadProjectConfig
  | GetCitationRenderer
  | CitationRendererSettled bool
  | ProcessFile nat project_page
  | ProcessFileSettled nat bool
  | LogInfo log_line
  | ProjectSettled bool

text \<open>
  Where a call of \<open>buildProject\<close> stands: at its first \<open>await\<close>, with the project
  configuration it read; at its second, with a slot for the result of each
  \<open>processFile\<close> (\<open>None\<close> while pending; a result is the list of the \<open>processed\<close> flags
  that \<open>flat\<close> sees); or settled.
\<close>

datatype project_phase =
    AwaitCitation project_config
  | AwaitPages "bool list option list"
  | Fulfilled "bool list list" nat
  | Rejected

text \<open>A promise of the cache settles: \<open>True\<close> or a result when fulfilled, \<open>False\<close> or \<open>None\<close>
  when rejected. Files are numbered by their place in the list given to \<open>Promise.all\<close>.\<close>

datatype settlement = CitationRenderer bool | File nat "bool list option"

text \<open>The arguments of the calls of \<open>processFile\<close>, in order.\<close>

definition targets :: "project_config \<Rightarrow> project_page list" where
  "targets project =
     LocalProjectPage (pc_file project) (pc_index project) # filter has_slug (pc_pages project)"

text \<open>Up to \<open>await cache.getCitationRenderer(siteProject.path)\<close>.\<close>

definition buildProject_start ::
  "'a build_env_scheme \<Rightarrow> site_project \<Rightarrow> project_event list \<times> project_phase" where
  "buildProject_start env siteProject =
     (let project = loadProjectConfigFromDisk env (sp_path siteProject)
      in ([LoadProjectConfig, GetCitationRenderer], AwaitCitation project))"

text \<open>From there to \<open>await Promise.all([...])\<close>: the calls of \<open>processFile\<close>.\<close>

definition buildProject_pages :: "project_config \<Rightarrow> project_event list \<times> project_phase" where
  "buildProject_pages project =
     (let ts = targets project
      in (map (\<lambda>(j, pg). ProcessFile j pg) (enumerate 0 ts), AwaitPages (replicate (length ts) None)))"

text \<open>From there to the \<open>return\<close>.\<close>

definition buildProject_finish :: "bool list list \<Rightarrow> project_event list \<times> project_phase" where
  "buildProject_finish pages =
     (let touched = length (filter (\<lambda>processed. processed) (concat pages))
      in ([LogInfo (if touched \<noteq> 0 then Built touched (length pages) else FromCache (length pages)),
           ProjectSettled True],
          Fulfilled pages touched))"

fun buildProject_resume :: "settlement \<Rightarrow> project_phase \<Rightarrow> project_event list \<times> project_phase" where
  "buildProject_resume (CitationRenderer ok) (AwaitCitation project) =
     (if ok then
        (let (ev, ph) = buildProject_pages project in (CitationRendererSettled True # ev, ph))
      else ([CitationRendererSettled False, ProjectSettled False], Rejected))"
| "buildProject_resume (File j r) (AwaitPages slots) =
     (if j < length slots \<and> slots ! j = None then
        (case r of
           None \<Rightarrow> ([ProcessFileSettled j False, ProjectSettled False], Rejected)
         | Some res \<Rightarrow>
             (let slots' = slots[j := Some res]
              in if list_all (\<lambda>s. s \<noteq> None) slots' then
                   (let (ev, ph) = buildProject_finish (map the slots')
                    in (ProcessFileSettled j True # ev, ph))
                 else ([ProcessFileSettled j True], AwaitPages slots')))
      else ([], AwaitPages slots))"
| "buildProject_resume c ph = ([], ph)"

text \<open>A run of one call of \<open>buildProject\<close>: its events and where it stands after the
  settlements of the schedule.\<close>

definition buildProject_step ::
  "project_event list \<times> project_phase \<Rightarrow> settlement \<Rightarrow> project_event list \<times> project_phase" where
  "buildProject_step st c =
     (let (ev, ph) = buildProject_resume c (snd st) in (fst st @ ev, ph))"

definition buildProject ::
  "'a build_env_scheme \<Rightarrow> site_project \<Rightarrow> settlement list \<Rightarrow>
   project_event list \<times> project_phase" where
  "buildProject env siteProject schedule =
     foldl buildProject_step (buildProject_start env siteProject) schedule"

subsection \<open>buildSite\<close>

datatype site_event =
    NewDocumentCache
  | CleanBuiltFiles
  | EnsureBuildFoldersExist
  | DebugSiteConfig
  | InProject nat project_event
  | WriteSiteManifest

datatype site_phase = AwaitProjects | Returned document_cache | Threw

record site_state =
  trace :: "site_event list"
  cache :: document_cache
  phases :: "project_phase list"
  outcome :: site_phase

fun is_fulfilled :: "project_phase \<Rightarrow> bool" where
  "is_fulfilled (Fulfilled pages touched) = True"
| "is_fulfilled ph = False"

text \<open>Up to \<open>await Promise.all(siteConfig.projects.map(...))\<close>, or to the early
  \<open>return cache\<close>: each call of \<open>buildProject\<close> runs to its first \<open>await\<close>.\<close>

definition buildSite_start :: "'a build_env_scheme \<Rightarrow> build_opts \<Rightarrow> site_state" where
  "buildSite_start env opts =
     (let cache0 = \<lparr>dc_opts = opts\<rparr>;
          pre = [NewDocumentCache] @ (if force opts \<or> clean opts then [CleanBuiltFiles] else []) @
                [EnsureBuildFoldersExist, DebugSiteConfig]
      in case selectLocalSiteConfig env of
           None \<Rightarrow> \<lparr>trace = pre, cache = cache0, phases = [], outcome = Returned cache0\<rparr>
         | Some siteConfig \<Rightarrow>
             if length (projects siteConfig) = 0 then
               \<lparr>trace = pre, cache = cache0, phases = [], outcome = Returned cache0\<rparr>
             else
               (let starts = map (buildProject_start env) (projects siteConfig)
                in \<lparr>trace = pre @ concat (map (\<lambda>(i, s). map (InProject i) (fst s))
                                             (enumerate 0 starts)),
                    cache = cache0, phases = map snd starts, outcome = AwaitProjects\<rparr>))"

text \<open>
  A promise of project \<open>i\<close> settles: that call of \<open>buildProject\<close> goes on, and when this
  settles it, \<open>buildSite\<close> goes on if it still waits: it throws when the project is
  rejected, and writes the manifest and returns the cache when every project is
  fulfilled.
\<close>

definition buildSite_deliver :: "site_state \<Rightarrow> nat \<times> settlement \<Rightarrow> site_state" where
  "buildSite_deliver st ic =
     (let i = fst ic; c = snd ic
      in if i < length (phases st) then
           (let (ev, ph) = buildProject_resume c (phases st ! i);
                st1 = st\<lparr>trace := trace st @ map (InProject i) ev,
                         phases := (phases st)[i := ph]\<rparr>
            in if outcome st1 = AwaitProjects then
                 (if ph = Rejected then st1\<lparr>outcome := Threw\<rparr>
                  else if list_all is_fulfilled (phases st1) then
                    st1\<lparr>trace := trace st1 @ [WriteSiteManifest], outcome := Returned (cache st1)\<rparr>
                  else st1)
               else st1)
         else st)"

definition buildSite ::
  "'a build_env_scheme \<Rightarrow> build_opts \<Rightarrow> (nat \<times> settlement) list \<Rightarrow> site_state" where
  "buildSite env opts schedule = foldl buildSite_deliver (buildSite_start env opts) schedule"

section \<open>Auxiliary notions for the statements\<close>

text \<open>What a call returned, when it did not throw.\<close>

definition returned :: "'s \<times> ('e + 'a) \<Rightarrow> 'a option" where
  "returned x = (case snd x of Inr r \<Rightarrow> Some r | Inl e \<Rightarrow> None)"

text \<open>
  The precedence rule of the specification for the two numbering options: the
  \<open>number-lines\<close> value wins when it is greater than 1, otherwise the \<open>lineno-start\<close>
  value is used, and the result is \<open>undefined\<close> when the chosen value is at most 1.
\<close>

definition precedence_rule :: "'a js_env_scheme \<Rightarrow> jsval \<Rightarrow> jsval \<Rightarrow> jsval" where
  "precedence_rule env linenoStart numberLines =
     (let chosen = (if js_gt1 env numberLines then numberLines else linenoStart)
      in if js_le1 env chosen then JUndefined else chosen)"

text \<open>The lowercase value of the filename option equals \<open>"false"\<close>.\<close>

definition lowercase_is_false :: "'a js_env_scheme \<Rightarrow> jsval \<Rightarrow> bool" where
  "lowercase_is_false env f =
     (case f of JStr s \<Rightarrow> toLowerCase env s = str ''false'' | _ \<Rightarrow> False)"

text \<open>A string that starts with \<open>[\<close> and ends with \<open>]\<close>.\<close>

definition bracketed :: "jsstring \<Rightarrow> bool" where
  "bracketed s = (startsWith s (str ''['') \<and> endsWith s (str '']''))"

section \<open>Example inputs\<close>

text \<open>
  An environment for the examples. Its entries agree with the libraries on the arguments
  the examples pass: lower-casing of ASCII letters, the YAML documents \<open>[a,b]\<close> and
  \<open>['']\<close> (a list of two strings, and a list of one empty string), labels without white
  space. The examples convert no string or object to a number and select no option node.
\<close>

text \<open>The text \<open>['']\<close>.\<close>

definition blank_list_text :: jsstring where
  "blank_list_text = [0x5B, 0x27, 0x27, 0x5D]"

definition ascii_lower :: "jsstring \<Rightarrow> jsstring" where
  "ascii_lower s = map (\<lambda>c. if 0x41 \<le> c \<and> c \<le> 0x5A then c + 0x20 else c) s"

definition sample_normalizeLabel :: "jsval \<Rightarrow> jsval" where
  "sample_normalizeLabel v =
     (case v of
        JStr s \<Rightarrow> if s = [] then JUndefined
                  else JObj [(str ''identifier'', JStr (ascii_lower s)), (str ''label'', JStr s)]
      | _ \<Rightarrow> JUndefined)"

definition sample_env :: js_env where
  "sample_env =
     \<lparr>StringToNumber = (\<lambda>s. NaN), ObjectToNumber = (\<lambda>v. NaN), toLowerCase = ascii_lower,
      yaml_load = (\<lambda>s. if s = str ''[a,b]'' then Some (JArr [JStr (str ''a''), JStr (str ''b'')])
                          else if s = blank_list_text then Some (JArr [JStr []])
                          else None),
      select = (\<lambda>s n. JNull), normalizeLabel = sample_normalizeLabel, nanoid = str ''id0''\<rparr>"

definition with_options :: "(string \<times> jsval) list \<Rightarrow> directive_data" where
  "with_options kvs =
     \<lparr>arg = JStr (str ''python''), options = Some (map_of kvs), body = JStr (str ''x = 1''),
      node = JNull\<rparr>"

definition match_and_start :: directive_data where
  "match_and_start = with_options [(''lineno-match'', JBool True), (''lineno-start'', JNum (Fin 5))]"

definition start5_lines3 :: directive_data where
  "start5_lines3 = with_options [(''lineno-start'', JNum (Fin 5)), (''number-lines'', JNum (Fin 3))]"

definition start5_lines3_match :: directive_data where
  "start5_lines3_match =
     with_options [(''lineno-start'', JNum (Fin 5)), (''number-lines'', JNum (Fin 3)),
                   (''lineno-match'', JBool True)]"

definition filename_FALSE :: directive_data where
  "filename_FALSE = with_options [(''filename'', JStr (str ''FALSE''))]"

definition no_options :: directive_data where
  "no_options = with_options []"

definition filename_empty :: directive_data where
  "filename_empty = with_options [(''filename'', JStr [])]"

definition captioned :: directive_data where
  "captioned =
     with_options [(''label'', JStr (str ''Fig'')), (''caption'', JArr [JStr (str ''A caption'')])]"

definition uncaptioned :: directive_data where
  "uncaptioned = with_options [(''label'', JStr (str ''Fig''))]"

definition blank_tags_cell :: directive_data where
  "blank_tags_cell = with_options [(''tags'', JStr blank_list_text)]"

text \<open>The selected site configuration is absent or has no project.\<close>

definition no_projects :: "'a build_env_scheme \<Rightarrow> bool" where
  "no_projects env =
     (case selectLocalSiteConfig env of None \<Rightarrow> True | Some siteConfig \<Rightarrow> projects siteConfig = [])"

text \<open>Where a call stands determines how its events begin.\<close>

definition begun :: "project_event list \<Rightarrow> project_phase \<Rightarrow> bool" where
  "begun tr ph =
     (case ph of
        AwaitCitation project \<Rightarrow> tr = [LoadProjectConfig, GetCitationRenderer]
      | Rejected \<Rightarrow>
          tr = [LoadProjectConfig, GetCitationRenderer, CitationRendererSettled False,
                ProjectSettled False] \<or>
          (\<exists>rest. tr = LoadProjectConfig # GetCitationRenderer # CitationRendererSettled True # rest)
      | _ \<Rightarrow>
          (\<exists>rest. tr = LoadProjectConfig # GetCitationRenderer # CitationRendererSettled True # rest))"

text \<open>What holds of the state of \<open>buildSite\<close> at every moment, for \<open>n\<close> projects.\<close>

definition site_inv :: "nat \<Rightarrow> site_state \<Rightarrow> bool" where
  "site_inv n st =
     (length (phases st) = n \<and>
      (\<forall>i<n. is_fulfilled (phases st ! i) \<longrightarrow> InProject i (ProjectSettled True) \<in> set (trace st)) \<and>
      (case outcome st of
         Returned c \<Rightarrow>
           list_all is_fulfilled (phases st) \<and>
           (\<exists>pre. trace st = pre @ [WriteSiteManifest] \<and> WriteSiteManifest \<notin> set pre \<and>
                  (\<forall>i<n. InProject i (ProjectSettled True) \<in> set pre))
       | _ \<Rightarrow> WriteSiteManifest \<notin> set (trace st)))"

text \<open>A parser state that records the calls made on it, oldest first, and utilities
  that read the argument text from a field of the node.\<close>

datatype tex_call = OpenParagraph | Text jsval bool | Warn jsstring jsval jsstring

definition log_parser :: "tex_call list tex_parser" where
  "log_parser =
     \<lparr>openParagraph = (\<lambda>s. s @ [OpenParagraph]),
      text' = (\<lambda>v escape s. s @ [Text v escape]),
      warn = (\<lambda>m nd source s. s @ [Warn m nd source])\<rparr>"

definition sample_utils :: tex_utils where
  "sample_utils = \<lparr>getArguments = get_prop, texToText = the_str\<rparr>"

definition acute :: "jsstring \<times> (jsstring \<times> jsstring) list" where
  "acute = ([0x27], [(str ''o'', [0xF3]), (str ''O'', [0xD3])])"

definition group_node :: "string \<Rightarrow> jsval" where
  "group_node s = JObj [(str ''group'', JStr (str s))]"

text \<open>A site of two projects: the first has an index and two entries, one with a slug;
  the second has its index only. And a site whose configuration lists no project.\<close>

definition project_a :: site_project where
  "project_a = \<lparr>sp_path = str ''a'', sp_slug = str ''a''\<rparr>"

definition project_b :: site_project where
  "project_b = \<lparr>sp_path = str ''b'', sp_slug = str ''b''\<rparr>"

definition two_projects :: build_env where
  "two_projects =
     \<lparr>selectLocalSiteConfig = Some \<lparr>projects = [project_a, project_b]\<rparr>,
      loadProjectConfigFromDisk =
        (\<lambda>p. if p = str ''a'' then
                \<lparr>pc_file = str ''a/index.md'', pc_index = str ''index'',
                 pc_pages = [LocalProjectPage (str ''a/x.md'') (str ''x''), OtherEntry]\<rparr>
              else \<lparr>pc_file = str ''b/index.md'', pc_index = str ''index'', pc_pages = []\<rparr>)\<rparr>"

definition empty_site :: build_env where
  "empty_site =
     \<lparr>selectLocalSiteConfig = Some \<lparr>projects = []\<rparr>,
      loadProjectConfigFromDisk =
        (\<lambda>p. \<lparr>pc_file = str ''index.md'', pc_index = str ''index'', pc_pages = []\<rparr>)\<rparr>"

definition clean_opts :: build_opts where
  "clean_opts = \<lparr>force = False, clean = True\<rparr>"

definition a_index :: project_page where
  "a_index = LocalProjectPage (str ''a/index.md'') (str ''index'')"

definition a_x :: project_page where
  "a_x = LocalProjectPage (str ''a/x.md'') (str ''x'')"

definition b_index :: project_page where
  "b_index = LocalProjectPage (str ''b/index.md'') (str ''index'')"

text \<open>The second project's citations load first; the pages settle in the order a/x, b/index,
  a/index.\<close>

definition full_schedule :: "(nat \<times> settlement) list" where
  "full_schedule =
     [(1, CitationRenderer True), (0, CitationRenderer True), (0, File 1 (Some [True])),
      (1, File 0 (Some [False])), (0, File 0 (Some [False]))]"

definition full_trace_before_manifest :: "site_event list" where
  "full_trace_before_manifest =
     [NewDocumentCache, CleanBuiltFiles, EnsureBuildFoldersExist, DebugSiteConfig,
      InProject 0 LoadProjectConfig, InProject 0 GetCitationRenderer,
      InProject 1 LoadProjectConfig, InProject 1 GetCitationRenderer,
      InProject 1 (CitationRendererSettled True), InProject 1 (ProcessFile 0 b_index),
      InProject 0 (CitationRendererSettled True), InProject 0 (ProcessFile 0 a_index),
      InProject 0 (ProcessFile 1 a_x),
      InProject 0 (ProcessFileSettled 1 True),
      InProject 1 (ProcessFileSettled 0 True), InProject 1 (LogInfo (FromCache 1)),
      InProject 1 (ProjectSettled True),
      InProject 0 (ProcessFileSettled 0 True), InProject 0 (LogInfo (Built 1 2)),
      InProject 0 (ProjectSettled True)]"

section \<open>Code-block options: properties\<close>

lemmas eval_defs = with_options_def opt_def conforms_def CODE_DIRECTIVE_OPTIONS_def
  codeDirective_options_def

lemma conforms_code_strings:
  assumes "conforms CODE_DIRECTIVE_OPTIONS data"
  shows "(opt data ''emphasize-lines'' = JUndefined \<or> is_string (opt data ''emphasize-lines''))
       \<and> (opt data ''filename'' = JUndefined \<or> is_string (opt data ''filename''))
       \<and> (opt data ''caption'' = JUndefined \<or> truthy (opt data ''caption''))"
  using assms unfolding conforms_def CODE_DIRECTIVE_OPTIONS_def
  by (auto split: jsval.splits)

lemma conforms_codeDirective:
  "conforms codeDirective_options data \<Longrightarrow> conforms CODE_DIRECTIVE_OPTIONS data"
  by (simp add: conforms_def codeDirective_options_def)

lemma parseEmphasizeLines_string:
  "v = JUndefined \<or> is_string v \<Longrightarrow> \<exists>e. parseEmphasizeLines env v = Inr e"
  by (cases v) (auto simp: parseEmphasizeLines_def)

lemma filename_of_typed:
  "f = JUndefined \<or> is_string f \<Longrightarrow>
   filename_of env f d =
     Inr (if lowercase_is_false env f then JUndefined
          else if \<not> truthy f \<and> truthy d then d else f)"
  by (cases f) (simp_all add: filename_of_def lowercase_is_false_def)

lemma getCodeBlockOptions_file:
  "fst (getCodeBlockOptions env data vf d) = warn_both env data vf"
  by (simp add: getCodeBlockOptions_def Let_def split: sum.splits)

text \<open>With options of the declared types the call returns, and its fields are the
  local variables of the body.\<close>

lemma getCodeBlockOptions_typed:
  assumes "conforms CODE_DIRECTIVE_OPTIONS data"
  shows "\<exists>r. returned (getCodeBlockOptions env data vf d) = Some r \<and>
           showLineNumbers r = showLineNumbers_of data \<and>
           startingLineNumber r = startingLineNumber_of env data \<and>
           filename_of env (opt data ''filename'') d = Inr (filename r)"
proof -
  from conforms_code_strings [OF assms]
  have e: "opt data ''emphasize-lines'' = JUndefined \<or> is_string (opt data ''emphasize-lines'')"
    and f: "opt data ''filename'' = JUndefined \<or> is_string (opt data ''filename'')"
    by simp_all
  from parseEmphasizeLines_string [OF e]
  obtain em where em: "parseEmphasizeLines env (opt data ''emphasize-lines'') = Inr em" by blast
  from filename_of_typed [OF f]
  obtain fn where fn: "filename_of env (opt data ''filename'') d = Inr fn" by blast
  show ?thesis
    using em fn by (simp add: getCodeBlockOptions_def Let_def returned_def)
qed

text \<open>
  Claim C3, as amended. For every option map of the declared types in which both
  \<open>lineno-start\<close> and \<open>number-lines\<close> are present and \<open>lineno-match\<close> is not truthy,
  \<open>getCodeBlockOptions\<close> adds exactly one message to the file, a warning that the two
  options cannot be used together, and the starting line number it returns follows the
  precedence rule: the \<open>number-lines\<close> value when that is greater than 1, otherwise the
  \<open>lineno-start\<close> value, and \<open>undefined\<close> when the chosen value is at most 1.
\<close>

theorem starting_line_precedence:
  assumes "\<not> nullish (opt data ''lineno-start'')" and "\<not> nullish (opt data ''number-lines'')"
    and "conforms CODE_DIRECTIVE_OPTIONS data" and "\<not> truthy (opt data ''lineno-match'')"
  shows "(\<exists>w. fst (getCodeBlockOptions env data vf d) = vf @ [w] \<and>
              m_severity w = Warning \<and> m_reason w = both_message) \<and>
         map_option startingLineNumber (returned (getCodeBlockOptions env data vf d)) =
           Some (precedence_rule env (opt data ''lineno-start'') (opt data ''number-lines''))"
proof -
  have w: "\<exists>w. fst (getCodeBlockOptions env data vf d) = vf @ [w] \<and>
              m_severity w = Warning \<and> m_reason w = both_message"
    using assms(1,2) by (simp add: getCodeBlockOptions_file warn_both_def fileWarn_def)
  from getCodeBlockOptions_typed [OF assms(3), where env=env and d=d and vf=vf]
  obtain r where r: "returned (getCodeBlockOptions env data vf d) = Some r"
    and "startingLineNumber r = startingLineNumber_of env data" by auto
  moreover have "startingLineNumber_of env data =
      precedence_rule env (opt data ''lineno-start'') (opt data ''number-lines'')"
    using assms(1,2,4) by (auto simp: startingLineNumber_of_def precedence_rule_def Let_def)
  ultimately have s: "map_option startingLineNumber (returned (getCodeBlockOptions env data vf d)) =
           Some (precedence_rule env (opt data ''lineno-start'') (opt data ''number-lines''))"
    by simp
  from w s show ?thesis by blast
qed

text \<open>The example of the specification: \<open>lineno-start\<close> 5 and \<open>number-lines\<close> 3 give one
  message and the starting line 3.\<close>

theorem starting_line_precedence_witness:
  "\<not> nullish (opt start5_lines3 ''lineno-start'') \<and>
   \<not> nullish (opt start5_lines3 ''number-lines'') \<and>
   conforms CODE_DIRECTIVE_OPTIONS start5_lines3 \<and>
   \<not> truthy (opt start5_lines3 ''lineno-match'') \<and>
   length (fst (getCodeBlockOptions sample_env start5_lines3 [] JUndefined)) = 1 \<and>
   map_option startingLineNumber
     (returned (getCodeBlockOptions sample_env start5_lines3 [] JUndefined)) = Some (JNum (Fin 3))"
proof -
  have a: "\<not> nullish (opt start5_lines3 ''lineno-start'')"
    by (simp add: start5_lines3_def eval_defs)
  have b: "\<not> nullish (opt start5_lines3 ''number-lines'')"
    by (simp add: start5_lines3_def eval_defs)
  have c: "conforms CODE_DIRECTIVE_OPTIONS start5_lines3"
    by (simp add: start5_lines3_def eval_defs)
  have m: "\<not> truthy (opt start5_lines3 ''lineno-match'')"
    by (simp add: start5_lines3_def eval_defs)
  have p: "precedence_rule sample_env (opt start5_lines3 ''lineno-start'')
             (opt start5_lines3 ''number-lines'') = JNum (Fin 3)"
    by (simp add: start5_lines3_def eval_defs precedence_rule_def js_gt1_def js_le1_def)
  from starting_line_precedence [OF a b c m, of sample_env "[]" JUndefined] a b c m p
  show ?thesis by auto
qed

text \<open>The claim as first stated fails when \<open>lineno-match\<close> is set as well: both options
  are present, the rule gives 3, and the call returns the sentinel \<open>"match"\<close>.\<close>

theorem starting_line_precedence_counterexample:
  "\<not> nullish (opt start5_lines3_match ''lineno-start'') \<and>
   \<not> nullish (opt start5_lines3_match ''number-lines'') \<and>
   conforms CODE_DIRECTIVE_OPTIONS start5_lines3_match \<and>
   precedence_rule sample_env (opt start5_lines3_match ''lineno-start'')
     (opt start5_lines3_match ''number-lines'') = JNum (Fin 3) \<and>
   map_option startingLineNumber
     (returned (getCodeBlockOptions sample_env start5_lines3_match [] JUndefined)) =
     Some (JStr (str ''match'')) \<and>
   JStr (str ''match'') \<noteq> JNum (Fin 3)"
  by (simp add: start5_lines3_match_def eval_defs precedence_rule_def js_gt1_def js_le1_def
      getCodeBlockOptions_def parseEmphasizeLines_def filename_of_def returned_def
      startingLineNumber_of_def Let_def)

text \<open>
  Claim C4. For every option map of the declared types in which \<open>lineno-match\<close> is
  truthy, \<open>getCodeBlockOptions\<close> returns the sentinel \<open>"match"\<close> as the starting line
  number, a string and not a number, whatever \<open>lineno-start\<close> and \<open>number-lines\<close> hold.
\<close>

theorem lineno_match_sentinel:
  assumes "truthy (opt data ''lineno-match'')" and "conforms CODE_DIRECTIVE_OPTIONS data"
  shows "map_option startingLineNumber (returned (getCodeBlockOptions env data vf d)) =
           Some (JStr (str ''match''))"
proof -
  from getCodeBlockOptions_typed [OF assms(2), where env=env and d=d and vf=vf]
  obtain r where "returned (getCodeBlockOptions env data vf d) = Some r"
    and "startingLineNumber r = startingLineNumber_of env data" by auto
  with assms(1) show ?thesis by (simp add: startingLineNumber_of_def)
qed

theorem lineno_match_sentinel_witness:
  "truthy (opt match_and_start ''lineno-match'') \<and>
   conforms CODE_DIRECTIVE_OPTIONS match_and_start \<and>
   opt match_and_start ''lineno-start'' = JNum (Fin 5) \<and>
   map_option startingLineNumber
     (returned (getCodeBlockOptions sample_env match_and_start [] JUndefined)) =
     Some (JStr (str ''match''))"
proof -
  have t: "truthy (opt match_and_start ''lineno-match'')"
    by (simp add: match_and_start_def eval_defs)
  have c: "conforms CODE_DIRECTIVE_OPTIONS match_and_start"
    by (simp add: match_and_start_def eval_defs)
  have s: "opt match_and_start ''lineno-start'' = JNum (Fin 5)"
    by (simp add: match_and_start_def eval_defs)
  from lineno_match_sentinel [OF t c] t c s show ?thesis by simp
qed

text \<open>
  Claim C7, as amended. For every option map of the declared types, the filename that
  \<open>getCodeBlockOptions\<close> returns is \<open>undefined\<close> whenever the lowercase value of the
  \<open>filename\<close> option equals \<open>"false"\<close>, whatever the default; when the option is absent
  or the empty string and the default is a non-empty string, it is the default; otherwise
  it is the raw value of the option.
\<close>

theorem filename_resolution:
  assumes "conforms CODE_DIRECTIVE_OPTIONS data"
  shows "map_option filename (returned (getCodeBlockOptions env data vf d)) =
           Some (if lowercase_is_false env (opt data ''filename'') then JUndefined
                 else if \<not> truthy (opt data ''filename'') \<and> truthy d then d
                 else opt data ''filename'')"
proof -
  from conforms_code_strings [OF assms]
  have f: "opt data ''filename'' = JUndefined \<or> is_string (opt data ''filename'')" by simp
  from getCodeBlockOptions_typed [OF assms, where env=env and d=d and vf=vf]
  obtain r where r: "returned (getCodeBlockOptions env data vf d) = Some r"
    and fn: "filename_of env (opt data ''filename'') d = Inr (filename r)" by auto
  from fn filename_of_typed [OF f, of env d]
  have "filename r = (if lowercase_is_false env (opt data ''filename'') then JUndefined
                 else if \<not> truthy (opt data ''filename'') \<and> truthy d then d
                 else opt data ''filename'')"
    by simp
  with r show ?thesis by simp
qed

lemma lower_FALSE: "ascii_lower (str ''FALSE'') = str ''false''"
  by (simp add: ascii_lower_def str_def)

text \<open>The examples of the specification: \<open>"FALSE"\<close> gives \<open>undefined\<close> in spite of the
  default, and no option with the default \<open>"a.py"\<close> gives \<open>"a.py"\<close>.\<close>

theorem filename_resolution_witness:
  "conforms CODE_DIRECTIVE_OPTIONS filename_FALSE \<and>
   map_option filename
     (returned (getCodeBlockOptions sample_env filename_FALSE [] (JStr (str ''a.py'')))) =
     Some JUndefined \<and>
   conforms CODE_DIRECTIVE_OPTIONS no_options \<and>
   map_option filename
     (returned (getCodeBlockOptions sample_env no_options [] (JStr (str ''a.py'')))) =
     Some (JStr (str ''a.py''))"
proof -
  have c1: "conforms CODE_DIRECTIVE_OPTIONS filename_FALSE"
    by (simp add: filename_FALSE_def eval_defs)
  have c2: "conforms CODE_DIRECTIVE_OPTIONS no_options"
    by (simp add: no_options_def eval_defs)
  have l: "lowercase_is_false sample_env (opt filename_FALSE ''filename'')"
    by (simp add: filename_FALSE_def eval_defs lowercase_is_false_def sample_env_def lower_FALSE)
  have n: "opt no_options ''filename'' = JUndefined"
    by (simp add: no_options_def eval_defs)
  have t: "truthy (JStr (str ''a.py''))" by (simp add: str_def)
  from filename_resolution [OF c1, of sample_env "[]" "JStr (str ''a.py'')"]
       filename_resolution [OF c2, of sample_env "[]" "JStr (str ''a.py'')"] c1 c2 l n t
  show ?thesis by (simp add: lowercase_is_false_def)
qed

text \<open>The claim as first stated fails on the empty string: the option is present, its
  lowercase value is not \<open>"false"\<close>, and the call returns the default, not the raw value.\<close>

theorem filename_resolution_counterexample:
  "opt filename_empty ''filename'' = JStr [] \<and>
   \<not> lowercase_is_false sample_env (opt filename_empty ''filename'') \<and>
   map_option filename
     (returned (getCodeBlockOptions sample_env filename_empty [] (JStr (str ''a.py'')))) =
     Some (JStr (str ''a.py'')) \<and>
   JStr (str ''a.py'') \<noteq> JStr []"
  by (simp add: filename_empty_def eval_defs lowercase_is_false_def sample_env_def ascii_lower_def
      getCodeBlockOptions_def parseEmphasizeLines_def filename_of_def returned_def str_def)

section \<open>The code directive: properties\<close>

text \<open>
  Claim C1. For every invocation of the code directive with options of the declared
  types: if a \<open>caption\<close> option is supplied, \<open>run\<close> returns a single container of kind
  \<open>code\<close> whose children are the code node and a caption node, the container carries
  the label and the identifier, and the code node carries neither; if no \<open>caption\<close>
  option is supplied, it returns a single code node that carries the label and the
  identifier. So there is a container exactly when a caption was supplied, and label and
  identifier are never on two nodes.
\<close>

theorem caption_wraps_code:
  assumes "conforms codeDirective_options data"
  shows "(opt data ''caption'' \<noteq> JUndefined \<longrightarrow>
            (\<exists>code. returned (codeDirective_run env data vf) =
                 Some [Container (JStr (str ''code'')) (fst (label_identifier env data))
                         (snd (label_identifier env data))
                         [Code code, Caption [Paragraph (opt data ''caption'')]]] \<and>
               c_label code = JUndefined \<and> c_identifier code = JUndefined)) \<and>
         (opt data ''caption'' = JUndefined \<longrightarrow>
            (\<exists>code. returned (codeDirective_run env data vf) = Some [Code code] \<and>
               c_label code = fst (label_identifier env data) \<and>
               c_identifier code = snd (label_identifier env data)))"
proof -
  have c: "conforms CODE_DIRECTIVE_OPTIONS data" by (rule conforms_codeDirective [OF assms])
  from conforms_code_strings [OF c]
  have cap: "opt data ''caption'' = JUndefined \<or> truthy (opt data ''caption'')" by simp
  from getCodeBlockOptions_typed [OF c, where env=env and d=JUndefined and vf=vf]
  obtain r where r: "returned (getCodeBlockOptions env data vf JUndefined) = Some r" by blast
  then obtain vf1 where g: "getCodeBlockOptions env data vf JUndefined = (vf1, Inr r)"
    by (cases "getCodeBlockOptions env data vf JUndefined")
       (auto simp: returned_def split: sum.splits)
  show ?thesis
  proof (cases "opt data ''caption'' = JUndefined")
    case True
    then show ?thesis using g
      by (simp add: codeDirective_run_def Let_def returned_def split: prod.splits)
  next
    case False
    with cap have "truthy (opt data ''caption'')" by simp
    then show ?thesis using g False
      by (simp add: codeDirective_run_def Let_def returned_def split: prod.splits)
  qed
qed

lemma sample_label_Fig:
  "label_identifier sample_env captioned = (JStr (str ''Fig''), JStr (str ''fig''))"
  "label_identifier sample_env uncaptioned = (JStr (str ''Fig''), JStr (str ''fig''))"
  by (simp_all add: label_identifier_def sample_env_def sample_normalizeLabel_def
      captioned_def uncaptioned_def with_options_def opt_def ascii_lower_def str_def Let_def)

theorem caption_wraps_code_witness:
  "conforms codeDirective_options captioned \<and> opt captioned ''caption'' \<noteq> JUndefined \<and>
   (\<exists>code. returned (codeDirective_run sample_env captioned []) =
        Some [Container (JStr (str ''code'')) (JStr (str ''Fig'')) (JStr (str ''fig''))
                [Code code, Caption [Paragraph (JArr [JStr (str ''A caption'')])]]] \<and>
      c_label code = JUndefined \<and> c_identifier code = JUndefined) \<and>
   conforms codeDirective_options uncaptioned \<and> opt uncaptioned ''caption'' = JUndefined \<and>
   (\<exists>code. returned (codeDirective_run sample_env uncaptioned []) = Some [Code code] \<and>
      c_label code = JStr (str ''Fig'') \<and> c_identifier code = JStr (str ''fig''))"
proof -
  have c1: "conforms codeDirective_options captioned"
    by (simp add: captioned_def eval_defs)
  have c2: "conforms codeDirective_options uncaptioned"
    by (simp add: uncaptioned_def eval_defs)
  have p1: "opt captioned ''caption'' = JArr [JStr (str ''A caption'')]"
    by (simp add: captioned_def eval_defs)
  have p2: "opt uncaptioned ''caption'' = JUndefined"
    by (simp add: uncaptioned_def eval_defs)
  from caption_wraps_code [OF c1, of sample_env "[]"] caption_wraps_code [OF c2, of sample_env "[]"]
       c1 c2 p1 p2
  show ?thesis by (simp add: sample_label_Fig)
qed

section \<open>Tags: properties\<close>

text \<open>The six cases of \<open>parseTags\<close>, in the order of its body.\<close>

lemma parseTags_falsy:
  "\<not> truthy input \<Longrightarrow> parseTags env input vf nd = Some (None, vf)"
  by (subst parseTags.simps) simp

lemma parseTags_bracketed:
  assumes "bracketed s"
  shows "parseTags env (JStr s) vf nd =
           (case yaml_load env s of
              Some v \<Rightarrow> parseTags env v vf nd
            | None \<Rightarrow> Some (None, fileError vf tags_load_message (tags_node env nd)
                                  (str ''code-cell:tags'') directiveOptionsCorrect))"
proof -
  from assms have "s \<noteq> []" by (auto simp: bracketed_def startsWith_def str_def)
  with assms show ?thesis
    by (subst parseTags.simps) (simp add: bracketed_def)
qed

lemma parseTags_plain:
  assumes "s \<noteq> []" and "\<not> bracketed s"
  shows "parseTags env (JStr s) vf nd =
           Some (if trim_nonempty (split (\<lambda>c. c = 0x2C \<or> is_space c) s) = [] then None
                 else Some (trim_nonempty (split (\<lambda>c. c = 0x2C \<or> is_space c) s)), vf)"
  using assms by (subst parseTags.simps) (auto simp: bracketed_def Let_def)

lemma parseTags_other:
  assumes "truthy input" and "\<not> is_string input" and "\<forall>xs. input \<noteq> JArr xs"
  shows "parseTags env input vf nd = Some (None, vf)"
  using assms by (subst parseTags.simps) (cases input; simp)

lemma parseTags_strings:
  assumes "list_all is_string xs"
  shows "parseTags env (JArr xs) vf nd =
           Some (if xs = [] then None else Some (trim_nonempty (map the_str xs)), vf)"
  using assms by (subst parseTags.simps) simp

lemma parseTags_mixed:
  assumes "\<not> list_all is_string xs"
  shows "parseTags env (JArr xs) vf nd =
           Some (None, fileWarn vf tags_list_message (tags_node env nd)
                         (str ''code-cell:tags'') directiveOptionsCorrect)"
  using assms by (subst parseTags.simps) simp

text \<open>\<open>parseTags\<close> returns on every input, provided \<open>yaml.load\<close> never returns a string
  in brackets: then the call on its result does not call itself again.\<close>

lemma parseTags_unbracketed_returns:
  assumes "\<not> (is_string input \<and> bracketed (the_str input))"
  shows "\<exists>r. parseTags env input vf nd = Some r"
proof (cases "truthy input")
  case False
  then show ?thesis by (simp add: parseTags_falsy)
next
  case True
  show ?thesis
  proof (cases input)
    case (JStr s)
    with True assms show ?thesis by (simp add: parseTags_plain)
  next
    case (JArr xs)
    then show ?thesis
      by (cases "list_all is_string xs") (simp_all add: parseTags_strings parseTags_mixed)
  qed (use True in \<open>simp_all add: parseTags_other\<close>)
qed

lemma parseTags_returns:
  assumes "\<And>s v. yaml_load env s = Some v \<Longrightarrow> \<not> (is_string v \<and> bracketed (the_str v))"
  shows "\<exists>r. parseTags env input vf nd = Some r"
proof (cases "is_string input \<and> bracketed (the_str input)")
  case False
  then show ?thesis by (rule parseTags_unbracketed_returns)
next
  case True
  then obtain s where s: "input = JStr s" and b: "bracketed s" by (cases input) auto
  show ?thesis
  proof (cases "yaml_load env s")
    case None
    with s b show ?thesis by (simp add: parseTags_bracketed)
  next
    case (Some v)
    from parseTags_unbracketed_returns [OF assms [OF Some]] Some s b
    show ?thesis by (simp add: parseTags_bracketed)
  qed
qed

text \<open>The four examples of the specification.\<close>

lemma parseTags_example_plain:
  "parseTags env (JStr (str ''remove-input, hide-cell'')) vf nd =
     Some (Some [str ''remove-input'', str ''hide-cell''], vf)"
  by (subst parseTags.simps)
     (simp add: str_def startsWith_def endsWith_def trim_nonempty_def trim_def is_space_def)

lemma parseTags_example_bracketed:
  assumes "yaml_load env (str ''[a,b]'') = Some (JArr [JStr (str ''a''), JStr (str ''b'')])"
  shows "parseTags env (JStr (str ''[a,b]'')) vf nd = Some (Some [str ''a'', str ''b''], vf)"
proof -
  have b: "bracketed (str ''[a,b]'')"
    by (simp add: bracketed_def startsWith_def endsWith_def str_def)
  have "parseTags env (JArr [JStr (str ''a''), JStr (str ''b'')]) vf nd =
          Some (Some [str ''a'', str ''b''], vf)"
    by (simp add: parseTags_strings trim_nonempty_def trim_def is_space_def str_def)
  with assms show ?thesis by (simp add: parseTags_bracketed [OF b])
qed

lemma parseTags_example_number:
  "parseTags env (JNum (Fin 42)) vf nd = Some (None, vf)"
  by (subst parseTags.simps) simp

lemma parseTags_example_mixed:
  "parseTags env (JArr [JStr (str ''x''), JNum (Fin 3)]) vf nd =
     Some (None, fileWarn vf tags_list_message (tags_node env nd)
                   (str ''code-cell:tags'') directiveOptionsCorrect)"
  by (simp add: parseTags_mixed)

text \<open>
  Claim C2. \<open>parseTags\<close> follows the six rules of tag parsing: the lemmas above show
  rules 1 to 4 and 6, the four examples, and rule 5 for a list with a string that is not
  blank. The last part of rule 5 fails: the claim says that a list of strings whose
  elements are all empty gives \<open>undefined\<close>, as a blank string does, but the code tests
  the length of the list before it trims and drops the empty strings, so on the list
  that holds one empty string it returns the empty list.
\<close>

theorem parseTags_blank_list:
  "parseTags env (JArr [JStr []]) vf nd = Some (Some [], vf)"
  by (simp add: parseTags_strings trim_nonempty_def trim_def)

section \<open>The code-cell directive: properties\<close>

lemma codeCellDirective_run_shape:
  assumes "parseTags env (opt data ''tags'') vf (node data) = Some (tags, vf1)"
  shows "codeCellDirective_run env data vf =
           Some (vf1,
             [Block (fst (label_identifier env data)) (snd (label_identifier env data))
                [Code \<lparr>c_lang = arg data, c_class = JUndefined,
                       c_emphasizeLines = JUndefined, c_showLineNumbers = JUndefined,
                       c_startingLineNumber = JUndefined, c_filename = JUndefined,
                       c_value = coalesce (body data) (JStr []),
                       c_label = JUndefined, c_identifier = JUndefined,
                       c_executable = JBool True\<rparr>,
                 Output (nanoid env) []]
                \<lparr>bd_type = str ''notebook-code'', bd_tags = tags\<rparr>])"
  using assms
  by (cases tags) (simp_all add: codeCellDirective_run_def Let_def split: prod.splits)

text \<open>Without a tags option the block has no tags field.\<close>

lemma codeCellDirective_run_no_tags:
  assumes "\<not> truthy (opt data ''tags'')"
  shows "\<exists>lbl ident ch. codeCellDirective_run env data vf =
           Some (vf, [Block lbl ident ch \<lparr>bd_type = str ''notebook-code'', bd_tags = None\<rparr>])"
  using codeCellDirective_run_shape [OF parseTags_falsy [OF assms]] by blast

text \<open>
  Claim C5. The claim says that tags are attached to the block only when they are not
  empty. On the tags option \<open>['']\<close>, a string as the directive declares, \<open>yaml.load\<close>
  gives the list of one empty string, \<open>parseTags\<close> returns the empty list, which is
  truthy, and \<open>run\<close> attaches it: the block has an empty tags field.
\<close>

theorem code_cell_blank_tags:
  "conforms codeCellDirective_options blank_tags_cell \<and>
   codeCellDirective_run sample_env blank_tags_cell [] =
     Some ([],
       [Block JUndefined JUndefined
          [Code \<lparr>c_lang = JStr (str ''python''), c_class = JUndefined,
                 c_emphasizeLines = JUndefined, c_showLineNumbers = JUndefined,
                 c_startingLineNumber = JUndefined, c_filename = JUndefined,
                 c_value = JStr (str ''x = 1''),
                 c_label = JUndefined, c_identifier = JUndefined,
                 c_executable = JBool True\<rparr>,
           Output (str ''id0'') []]
          \<lparr>bd_type = str ''notebook-code'', bd_tags = Some []\<rparr>])"
proof -
  have c: "conforms codeCellDirective_options blank_tags_cell"
    by (simp add: blank_tags_cell_def eval_defs codeCellDirective_options_def)
  have t: "opt blank_tags_cell ''tags'' = JStr blank_list_text"
    by (simp add: blank_tags_cell_def eval_defs)
  have b: "bracketed blank_list_text"
    by (simp add: bracketed_def blank_list_text_def startsWith_def endsWith_def str_def)
  have y: "yaml_load sample_env blank_list_text = Some (JArr [JStr []])"
    by (simp add: sample_env_def blank_list_text_def str_def)
  have p: "parseTags sample_env (opt blank_tags_cell ''tags'') [] (node blank_tags_cell) =
             Some (Some [], [])"
    by (simp add: t parseTags_bracketed [OF b] y parseTags_strings trim_nonempty_def trim_def)
  have l: "label_identifier sample_env blank_tags_cell = (JUndefined, JUndefined)"
    by (simp add: label_identifier_def sample_env_def sample_normalizeLabel_def
        blank_tags_cell_def eval_defs Let_def)
  have n: "nanoid sample_env = str ''id0''" by (simp add: sample_env_def)
  have v: "coalesce (body blank_tags_cell) (JStr []) = JStr (str ''x = 1'')"
    by (simp add: blank_tags_cell_def with_options_def coalesce_def str_def)
  have a: "arg blank_tags_cell = JStr (str ''python'')"
    by (simp add: blank_tags_cell_def with_options_def)
  show ?thesis
    by (simp add: c codeCellDirective_run_shape [OF p] l n v a)
qed

section \<open>Character macros: properties\<close>

lemma accents_distinct: "distinct (map fst accents)"
  by (simp add: accents_def str_def)

lemma accents_not_symbols: "list_all (\<lambda>k. k \<notin> set (map fst symbols)) (map fst accents)"
  by (simp add: accents_def symbols_def str_def)

lemma accents_values_nonempty: "list_all (\<lambda>(m, tr). list_all (\<lambda>(k, c). c \<noteq> []) tr) accents"
  by (simp add: accents_def)

text \<open>The handler of an accent macro is \<open>createText\<close> on the macro's table: no two accent
  macros share a name, and no symbol macro has the name of an accent macro.\<close>

lemma handler_of_accent:
  assumes "(macro, translate) \<in> set accents"
  shows "CHARACTER_HANDLERS p u (str ''macro_'' @ macro) =
           Some (\<lambda>nd state. createText p u state nd translate)"
proof -
  let ?f = "\<lambda>(macro, translate).
              (str ''macro_'' @ macro, \<lambda>nd state. createText p u state nd translate)"
  let ?g = "\<lambda>(macro, txt). (str ''macro_'' @ macro, \<lambda>nd state. addText p state (JStr txt))"
  have fst_f: "map fst (map ?f accents) = map (\<lambda>m. str ''macro_'' @ m) (map fst accents)"
    by (simp add: case_prod_unfold comp_def)
  have fst_g: "map fst (map ?g symbols) = map (\<lambda>m. str ''macro_'' @ m) (map fst symbols)"
    by (simp add: case_prod_unfold comp_def)
  have inj: "inj (\<lambda>m. str ''macro_'' @ m)" by (simp add: inj_on_def)
  have "distinct (map fst (map ?f accents))"
    unfolding fst_f using accents_distinct inj_on_subset [OF inj subset_UNIV]
    by (simp add: distinct_map del: map_map)
  then have d: "distinct (map fst (rev (map ?f accents)))" by (simp add: rev_map [symmetric])
  have "?f (macro, translate) \<in> set (rev (map ?f accents))"
    using assms by (simp only: set_rev set_map) (rule imageI)
  then have a: "map_of (rev (map ?f accents)) (str ''macro_'' @ macro) =
                  Some (\<lambda>nd state. createText p u state nd translate)"
    using d by (simp add: map_of_eq_Some_iff)
  from assms have "macro \<in> set (map fst accents)" by force
  with accents_not_symbols have "macro \<notin> set (map fst symbols)"
    by (simp add: list_all_iff del: set_map)
  then have "str ''macro_'' @ macro \<notin> set (map fst (map ?g symbols))"
    unfolding fst_g by auto
  then have s: "map_of (rev (map ?g symbols)) (str ''macro_'' @ macro) = None"
    by (simp add: map_of_eq_None_iff del: map_map)
  show ?thesis
    unfolding CHARACTER_HANDLERS_def fromEntries_def map_add_def
    by (simp only: a s option.simps)
qed

lemma accent_value_nonempty:
  assumes "(macro, translate) \<in> set accents" and "map_of translate k = Some c"
  shows "c \<noteq> []"
proof -
  from assms(2) have "(k, c) \<in> set translate" by (rule map_of_SomeD)
  with assms(1) accents_values_nonempty show ?thesis
    by (auto simp: list_all_iff)
qed

lemma accents_no_constructor:
  "list_all (\<lambda>(m, tr). map_of tr (str ''constructor'') = None) accents"
  by (simp add: accents_def str_def)

lemma Object_prototype_truthy:
  assumes "map_of Object_prototype k = Some v"
  shows "truthy v"
proof -
  from assms have "(k, v) \<in> set Object_prototype" by (rule map_of_SomeD)
  then show ?thesis
    by (auto simp: Object_prototype_def Object_prototype_functions_def)
qed

text \<open>
  What the handler of an accent macro does on a node whose argument text is \<open>value\<close>.
  When the macro's table lists \<open>value\<close>, it opens the paragraph (the parser opens one if
  none is open) and emits the composed character. When neither the table nor
  \<open>Object.prototype\<close> has \<open>value\<close>, it opens the paragraph, warns
  \<open>Unknown character value\<close> and then still emits the value it did not find,
  \<open>undefined\<close>. When the table does not list \<open>value\<close> but \<open>Object.prototype\<close> has a
  member of that name, it opens the paragraph and emits that member, with no warning.
\<close>

lemma accent_macro_handler:
  assumes "(macro, translate) \<in> set accents"
  shows "\<exists>h. CHARACTER_HANDLERS p u (str ''macro_'' @ macro) = Some h \<and>
           (\<forall>c. map_of translate (texToText u (getArguments u nd (str ''group''))) = Some c \<longrightarrow>
              h nd state = text' p (JStr c) False (openParagraph p state)) \<and>
           (map_of translate (texToText u (getArguments u nd (str ''group''))) = None \<and>
            map_of Object_prototype (texToText u (getArguments u nd (str ''group''))) = None \<longrightarrow>
              h nd state =
                text' p JUndefined False
                  (warn p (str ''Unknown character '' @
                             texToText u (getArguments u nd (str ''group'')))
                     nd (str ''tex-to-myst:characters'') (openParagraph p state))) \<and>
           (\<forall>v. map_of translate (texToText u (getArguments u nd (str ''group''))) = None \<and>
                map_of Object_prototype (texToText u (getArguments u nd (str ''group''))) = Some v \<longrightarrow>
              h nd state = text' p v False (openParagraph p state))"
proof -
  let ?v = "texToText u (getArguments u nd (str ''group''))"
  let ?h = "\<lambda>nd state. createText p u state nd translate"
  have hit: "map_of translate ?v = Some c \<Longrightarrow>
      ?h nd state = text' p (JStr c) False (openParagraph p state)" for c
    using accent_value_nonempty [OF assms, of ?v c]
    by (simp add: createText_def lookup_def Let_def)
  have miss: "map_of translate ?v = None \<and> map_of Object_prototype ?v = None \<Longrightarrow>
      ?h nd state = text' p JUndefined False
        (warn p (str ''Unknown character '' @ ?v) nd (str ''tex-to-myst:characters'')
           (openParagraph p state))"
    by (simp add: createText_def lookup_def Let_def)
  have inherited: "map_of translate ?v = None \<and> map_of Object_prototype ?v = Some v \<Longrightarrow>
      ?h nd state = text' p v False (openParagraph p state)" for v
    using Object_prototype_truthy [of ?v v]
    by (simp add: createText_def lookup_def Let_def)
  show ?thesis
  proof (intro exI [of _ ?h] conjI impI allI)
    show "CHARACTER_HANDLERS p u (str ''macro_'' @ macro) = Some ?h"
      by (rule handler_of_accent [OF assms])
  qed (simp_all only: miss hit inherited)
qed

text \<open>The acute accent: on \<open>o\<close> the composed character, on \<open>z\<close> the warning and
  \<open>undefined\<close>.\<close>

lemma accent_macro_examples:
  "map_option (\<lambda>h. h (group_node ''o'') []) (CHARACTER_HANDLERS log_parser sample_utils
      (str ''macro_'' @ fst acute)) = Some [OpenParagraph, Text (JStr [0xF3]) False] \<and>
   map_option (\<lambda>h. h (group_node ''z'') []) (CHARACTER_HANDLERS log_parser sample_utils
      (str ''macro_'' @ fst acute)) =
     Some [OpenParagraph,
           Warn (str ''Unknown character z'') (group_node ''z'') (str ''tex-to-myst:characters''),
           Text JUndefined False]"
proof -
  have m: "(fst acute, snd acute) \<in> set accents" by (simp add: acute_def accents_def str_def)
  have h: "CHARACTER_HANDLERS log_parser sample_utils (str ''macro_'' @ fst acute) =
             Some (\<lambda>nd state. createText log_parser sample_utils state nd (snd acute))"
    by (rule handler_of_accent [OF m])
  have o: "createText log_parser sample_utils [] (group_node ''o'') (snd acute) =
             [OpenParagraph, Text (JStr [0xF3]) False]"
    by (simp add: createText_def lookup_def sample_utils_def group_node_def acute_def
        log_parser_def str_def Let_def)
  have z: "createText log_parser sample_utils [] (group_node ''z'') (snd acute) =
             [OpenParagraph,
              Warn (str ''Unknown character z'') (group_node ''z'') (str ''tex-to-myst:characters''),
              Text JUndefined False]"
    by (simp add: createText_def lookup_def sample_utils_def group_node_def acute_def
        log_parser_def Object_prototype_def Object_prototype_functions_def str_def Let_def)
  show ?thesis by (simp add: h o z)
qed

text \<open>
  Claim C6. The claim says that whenever the argument text of an accent macro is not
  found in the macro's table, the handler warns of the unknown character and still emits
  \<open>undefined\<close>. No table of an accent macro lists \<open>constructor\<close>, yet for every accent
  macro the handler on that argument text finds the inherited member of that name, the
  function \<open>Object\<close>, takes the branch of a hit and emits the function, with no warning.
\<close>

theorem accent_macro_inherited_name:
  assumes "(macro, translate) \<in> set accents"
    and "texToText u (getArguments u nd (str ''group'')) = str ''constructor''"
  shows "map_of translate (str ''constructor'') = None \<and>
         (\<exists>h. CHARACTER_HANDLERS p u (str ''macro_'' @ macro) = Some h \<and>
              h nd state = text' p (JFunction (str ''Object'')) False (openParagraph p state))"
proof -
  from assms(1) accents_no_constructor
  have n: "map_of translate (str ''constructor'') = None"
    by (auto simp: list_all_iff)
  have i: "map_of Object_prototype (str ''constructor'') = Some (JFunction (str ''Object''))"
    by (simp add: Object_prototype_def Object_prototype_functions_def)
  have "createText p u state nd translate =
          text' p (JFunction (str ''Object'')) False (openParagraph p state)"
    by (simp add: createText_def lookup_def assms(2) n i Let_def)
  with handler_of_accent [OF assms(1), of p u] n show ?thesis by simp
qed

text \<open>The acute accent on the argument text \<open>constructor\<close>: two calls on the parser state,
  none of them a warning.\<close>

theorem accent_macro_inherited_name_witness:
  "acute \<in> set accents \<and>
   texToText sample_utils (getArguments sample_utils (group_node ''constructor'') (str ''group''))
     = str ''constructor'' \<and>
   map_of (snd acute) (str ''constructor'') = None \<and>
   map_option (\<lambda>h. h (group_node ''constructor'') []) (CHARACTER_HANDLERS log_parser sample_utils
      (str ''macro_'' @ fst acute)) =
     Some [OpenParagraph, Text (JFunction (str ''Object'')) False]"
proof -
  have m: "(fst acute, snd acute) \<in> set accents" by (simp add: acute_def accents_def str_def)
  have v: "texToText sample_utils
             (getArguments sample_utils (group_node ''constructor'') (str ''group''))
           = str ''constructor''"
    by (simp add: sample_utils_def group_node_def)
  have a: "acute \<in> set accents" using m by simp
  from accent_macro_inherited_name
         [OF m v, of log_parser "[]"]
  have "map_of (snd acute) (str ''constructor'') = None"
    and "\<exists>h. CHARACTER_HANDLERS log_parser sample_utils (str ''macro_'' @ fst acute) = Some h \<and>
            h (group_node ''constructor'') [] =
              text' log_parser (JFunction (str ''Object'')) False (openParagraph log_parser [])"
    by simp_all
  with a v show ?thesis by (auto simp: log_parser_def)
qed

section \<open>Building a site: properties\<close>

lemma buildProject_snoc:
  "buildProject env sp (schedule @ [c]) = buildProject_step (buildProject env sp schedule) c"
  by (simp add: buildProject_def)

lemma begun_step:
  assumes "begun tr ph" and "buildProject_resume c ph = (ev, ph')"
  shows "begun (tr @ ev) ph'"
proof (cases ph)
  case (AwaitCitation project)
  with assms show ?thesis
    by (cases c) (auto simp: begun_def buildProject_pages_def Let_def split: if_splits)
next
  case (AwaitPages slots)
  with assms show ?thesis
    by (cases c)
       (auto simp: begun_def buildProject_finish_def Let_def split: if_splits option.splits)
next
  case (Fulfilled pages touched)
  with assms show ?thesis by (cases c) (auto simp: begun_def)
next
  case Rejected
  with assms show ?thesis by (cases c) (auto simp: begun_def)
qed

lemma buildProject_begun:
  "begun (fst (buildProject env sp schedule)) (snd (buildProject env sp schedule))"
proof (induction schedule rule: rev_induct)
  case Nil
  show ?case by (simp add: buildProject_def buildProject_start_def begun_def Let_def)
next
  case (snoc c schedule)
  obtain ev ph' where r: "buildProject_resume c (snd (buildProject env sp schedule)) = (ev, ph')"
    by (cases "buildProject_resume c (snd (buildProject env sp schedule))")
  from begun_step [OF snoc.IH r] r show ?case
    by (simp add: buildProject_snoc buildProject_step_def)
qed

lemma begun_prefix:
  assumes "begun tr ph" and "tr = pre @ ProcessFile j pg # post"
  shows "CitationRendererSettled True \<in> set pre"
  using assms by (cases ph) (auto simp: begun_def append_eq_Cons_conv)

text \<open>
  Claim C9. In every run of \<open>buildProject\<close>, whatever the order in which the promises
  settle, every call of \<open>processFile\<close> comes after the project's citation renderer has
  been loaded: the events before it include the fulfilment of \<open>getCitationRenderer\<close>.
\<close>

theorem citations_before_pages:
  assumes "fst (buildProject env siteProject schedule) = pre @ ProcessFile j pg # post"
  shows "CitationRendererSettled True \<in> set pre"
  using begun_prefix [OF buildProject_begun assms] .

text \<open>The first project, once its citations are loaded: two pages are started.\<close>

theorem citations_before_pages_witness:
  "fst (buildProject two_projects project_a [CitationRenderer True]) =
     [LoadProjectConfig, GetCitationRenderer, CitationRendererSettled True] @
     ProcessFile 0 a_index # [ProcessFile 1 a_x] \<and>
   CitationRendererSettled True \<in>
     set [LoadProjectConfig, GetCitationRenderer, CitationRendererSettled True]"
proof -
  have e: "fst (buildProject two_projects project_a [CitationRenderer True]) =
     [LoadProjectConfig, GetCitationRenderer, CitationRendererSettled True] @
     ProcessFile 0 a_index # [ProcessFile 1 a_x]"
    by code_simp
  from citations_before_pages [OF e] e show ?thesis by simp
qed

lemma buildSite_snoc:
  "buildSite env opts (schedule @ [ic]) = buildSite_deliver (buildSite env opts schedule) ic"
  by (simp add: buildSite_def)

lemma resume_fulfilled_id:
  "is_fulfilled ph \<Longrightarrow> buildProject_resume c ph = ([], ph)"
  by (cases ph; cases c) simp_all

lemma resume_fulfilled:
  assumes "buildProject_resume c ph = (ev, ph')" and "is_fulfilled ph'"
  shows "is_fulfilled ph \<or> ProjectSettled True \<in> set ev"
proof (cases ph)
  case (AwaitCitation project)
  with assms show ?thesis
    by (cases c) (auto simp: buildProject_pages_def Let_def split: if_splits)
next
  case (AwaitPages slots)
  with assms show ?thesis
    by (cases c)
       (auto simp: buildProject_finish_def Let_def split: if_splits option.splits)
next
  case (Fulfilled pages touched)
  then show ?thesis by simp
next
  case Rejected
  with assms show ?thesis by (cases c) auto
qed

lemma site_inv_deliver:
  assumes "site_inv n st"
  shows "site_inv n (buildSite_deliver st ic)"
proof (cases "fst ic < length (phases st)")
  case False
  with assms show ?thesis by (simp add: buildSite_deliver_def Let_def)
next
  case True
  obtain i c where ic: "ic = (i, c)" by (cases ic)
  with True have i: "i < length (phases st)" by simp
  from assms have n: "length (phases st) = n" by (simp add: site_inv_def)
  obtain ev ph where r: "buildProject_resume c (phases st ! i) = (ev, ph)"
    by (cases "buildProject_resume c (phases st ! i)")
  let ?st1 = "st\<lparr>trace := trace st @ map (InProject i) ev, phases := (phases st)[i := ph]\<rparr>"
  have settled: "\<forall>k<n. is_fulfilled (phases ?st1 ! k) \<longrightarrow>
                   InProject k (ProjectSettled True) \<in> set (trace ?st1)"
  proof (intro allI impI)
    fix k assume k: "k < n" and f: "is_fulfilled (phases ?st1 ! k)"
    show "InProject k (ProjectSettled True) \<in> set (trace ?st1)"
    proof (cases "k = i")
      case True
      with f i have "is_fulfilled ph" by simp
      from resume_fulfilled [OF r this] show ?thesis
      proof
        assume "is_fulfilled (phases st ! i)"
        with assms k True show ?thesis by (simp add: site_inv_def)
      next
        assume "ProjectSettled True \<in> set ev"
        with True show ?thesis by simp
      qed
    next
      case False
      with f have "is_fulfilled (phases st ! k)" by simp
      with assms k show ?thesis by (simp add: site_inv_def)
    qed
  qed
  show ?thesis
  proof (cases "outcome st")
    case AwaitProjects
    with assms have w: "WriteSiteManifest \<notin> set (trace st)" by (simp add: site_inv_def)
    then have w1: "WriteSiteManifest \<notin> set (trace ?st1)" by auto
    have len: "length (phases ?st1) = n" using n by simp
    show ?thesis
    proof (cases "ph = Rejected")
      case True
      with AwaitProjects r i ic have "buildSite_deliver st ic = ?st1\<lparr>outcome := Threw\<rparr>"
        by (simp add: buildSite_deliver_def Let_def)
      with len settled w1 show ?thesis by (simp add: site_inv_def)
    next
      case False
      show ?thesis
      proof (cases "list_all is_fulfilled (phases ?st1)")
        case True
        with False AwaitProjects r i ic
        have d: "buildSite_deliver st ic =
                   ?st1\<lparr>trace := trace ?st1 @ [WriteSiteManifest], outcome := Returned (cache ?st1)\<rparr>"
          by (simp add: buildSite_deliver_def Let_def)
        from True len have "\<forall>k<n. is_fulfilled (phases ?st1 ! k)"
          by (simp add: list_all_length)
        with settled have a: "\<forall>k<n. InProject k (ProjectSettled True) \<in> set (trace ?st1)"
          by blast
        from a have a': "\<forall>k<n. InProject k (ProjectSettled True) \<in>
                          set (trace ?st1 @ [WriteSiteManifest])" by simp
        show ?thesis
          unfolding d site_inv_def using len True w1 a a' by simp
      next
        case nf: False
        with False AwaitProjects r i ic have "buildSite_deliver st ic = ?st1"
          by (simp add: buildSite_deliver_def Let_def)
        with len settled w1 AwaitProjects show ?thesis by (simp add: site_inv_def)
      qed
    qed
  next
    case (Returned c')
    with assms have "list_all is_fulfilled (phases st)" by (simp add: site_inv_def)
    with i have "is_fulfilled (phases st ! i)" by (simp add: list_all_length)
    from resume_fulfilled_id [OF this, of c] r have "ev = []" "ph = phases st ! i" by simp_all
    then have "buildSite_deliver st ic = st"
      using Returned i ic r by (simp add: buildSite_deliver_def Let_def)
    with assms show ?thesis by simp
  next
    case Threw
    with assms have w: "WriteSiteManifest \<notin> set (trace st)" by (simp add: site_inv_def)
    then have w1: "WriteSiteManifest \<notin> set (trace ?st1)" by auto
    from Threw r i ic n settled w1 show ?thesis
      by (auto simp: buildSite_deliver_def Let_def site_inv_def)
  qed
qed

lemma start_phases:
  "list_all (\<lambda>ph. \<not> is_fulfilled ph) (map snd (map (buildProject_start env) ps))"
  by (induction ps) (simp_all add: buildProject_start_def Let_def)

lemma site_inv_start:
  assumes "selectLocalSiteConfig env = Some siteConfig" and "projects siteConfig \<noteq> []"
  shows "site_inv (length (projects siteConfig)) (buildSite_start env opts)"
proof -
  have "\<forall>i < length (projects siteConfig).
          \<not> is_fulfilled (map snd (map (buildProject_start env) (projects siteConfig)) ! i)"
    using start_phases [of env "projects siteConfig"] by (simp add: list_all_length)
  with assms show ?thesis
    by (auto simp: site_inv_def buildSite_start_def Let_def)
qed

lemma site_inv_buildSite:
  assumes "selectLocalSiteConfig env = Some siteConfig" and "projects siteConfig \<noteq> []"
  shows "site_inv (length (projects siteConfig)) (buildSite env opts schedule)"
proof (induction schedule rule: rev_induct)
  case Nil
  show ?case using site_inv_start [OF assms] by (simp add: buildSite_def)
next
  case (snoc ic schedule)
  then show ?case by (simp add: buildSite_snoc site_inv_deliver)
qed

text \<open>
  Claim C8. In every run of \<open>buildSite\<close> on a site with at least one project, whatever
  the order in which the promises settle: when the site manifest is written, every
  project's build has settled before (each one fulfilled), no build is in flight, and
  nothing happens after the write.
\<close>

theorem manifest_after_all_projects:
  assumes "selectLocalSiteConfig env = Some siteConfig" and "projects siteConfig \<noteq> []"
    and "trace (buildSite env opts schedule) = pre @ WriteSiteManifest # post"
  shows "(\<forall>i < length (projects siteConfig). InProject i (ProjectSettled True) \<in> set pre) \<and>
         post = [] \<and> list_all is_fulfilled (phases (buildSite env opts schedule))"
proof -
  let ?st = "buildSite env opts schedule"
  have inv: "site_inv (length (projects siteConfig)) ?st"
    by (rule site_inv_buildSite [OF assms(1,2)])
  from assms(3) have w: "WriteSiteManifest \<in> set (trace ?st)" by simp
  with inv obtain c where c: "outcome ?st = Returned c"
    by (cases "outcome ?st") (auto simp: site_inv_def)
  with inv obtain pre' where p: "trace ?st = pre' @ [WriteSiteManifest]"
    and np: "WriteSiteManifest \<notin> set pre'"
    and all: "\<forall>i < length (projects siteConfig). InProject i (ProjectSettled True) \<in> set pre'"
    and ful: "list_all is_fulfilled (phases ?st)"
    by (auto simp: site_inv_def)
  from p assms(3) have e: "pre' @ [WriteSiteManifest] = pre @ WriteSiteManifest # post" by simp
  with np have "pre = pre' \<and> post = []"
    by (auto simp: append_eq_append_conv2 append_eq_Cons_conv Cons_eq_append_conv)
  with all ful show ?thesis by simp
qed

lemma full_run:
  "trace (buildSite two_projects clean_opts full_schedule) =
     full_trace_before_manifest @ WriteSiteManifest # []"
  by code_simp

text \<open>A run of the two projects to the end: the manifest is the last event, after both
  projects have settled.\<close>

theorem manifest_after_all_projects_witness:
  "selectLocalSiteConfig two_projects = Some \<lparr>projects = [project_a, project_b]\<rparr> \<and>
   projects \<lparr>projects = [project_a, project_b]\<rparr> \<noteq> [] \<and>
   trace (buildSite two_projects clean_opts full_schedule) =
     full_trace_before_manifest @ WriteSiteManifest # [] \<and>
   InProject 0 (ProjectSettled True) \<in> set full_trace_before_manifest \<and>
   InProject 1 (ProjectSettled True) \<in> set full_trace_before_manifest \<and>
   list_all is_fulfilled (phases (buildSite two_projects clean_opts full_schedule))"
proof -
  have c: "selectLocalSiteConfig two_projects = Some \<lparr>projects = [project_a, project_b]\<rparr>"
    by (simp add: two_projects_def)
  have n: "projects \<lparr>projects = [project_a, project_b]\<rparr> \<noteq> []" by simp
  from manifest_after_all_projects [OF c n full_run]
  have "InProject 0 (ProjectSettled True) \<in> set full_trace_before_manifest"
    and "InProject 1 (ProjectSettled True) \<in> set full_trace_before_manifest"
    and "list_all is_fulfilled (phases (buildSite two_projects clean_opts full_schedule))"
    by simp_all
  with c n full_run show ?thesis by simp
qed

lemma deliver_no_projects:
  "phases st = [] \<Longrightarrow> buildSite_deliver st ic = st"
  by (simp add: buildSite_deliver_def Let_def)

text \<open>
  Claim C10. When the selected site configuration is absent or lists no project, every
  run of \<open>buildSite\<close> returns the cache it constructed, and its events are: the cache is
  constructed, the built files are cleaned when \<open>force\<close> or \<open>clean\<close> is set, the build
  folders are created, the configuration is logged. No project is built and no manifest
  is written.
\<close>

theorem no_projects_returns_cache:
  assumes "no_projects env"
  shows "outcome (buildSite env opts schedule) = Returned \<lparr>dc_opts = opts\<rparr> \<and>
         trace (buildSite env opts schedule) =
           [NewDocumentCache] @ (if force opts \<or> clean opts then [CleanBuiltFiles] else []) @
           [EnsureBuildFoldersExist, DebugSiteConfig]"
proof -
  have s: "phases (buildSite_start env opts) = [] \<and>
           outcome (buildSite_start env opts) = Returned \<lparr>dc_opts = opts\<rparr> \<and>
           trace (buildSite_start env opts) =
             [NewDocumentCache] @ (if force opts \<or> clean opts then [CleanBuiltFiles] else []) @
             [EnsureBuildFoldersExist, DebugSiteConfig]"
    using assms by (auto simp: no_projects_def buildSite_start_def Let_def split: option.splits)
  have "buildSite env opts schedule = buildSite_start env opts"
  proof (induction schedule rule: rev_induct)
    case Nil
    show ?case by (simp add: buildSite_def)
  next
    case (snoc ic schedule)
    with s show ?case by (simp add: buildSite_snoc deliver_no_projects)
  qed
  with s show ?thesis by simp
qed

theorem no_projects_returns_cache_witness:
  "no_projects empty_site \<and>
   outcome (buildSite empty_site clean_opts [(0, CitationRenderer True)]) =
     Returned \<lparr>dc_opts = clean_opts\<rparr> \<and>
   trace (buildSite empty_site clean_opts [(0, CitationRenderer True)]) =
     [NewDocumentCache, CleanBuiltFiles, EnsureBuildFoldersExist, DebugSiteConfig]"
proof -
  have n: "no_projects empty_site" by (simp add: no_projects_def empty_site_def)
  from no_projects_returns_cache [OF n, of clean_opts "[(0, CitationRenderer True)]"] n
  show ?thesis by (simp add: clean_opts_def)
qed

end
